theory Spec2Isabelle
  imports Main "HOL-Library.Word"
begin

section \<open>The growable array of utils/xGrowableArray.c\<close>

text \<open>
  The C module keeps fixed-size elements in one heap block that doubles when it is full,
  with a cursor for one forward traversal. The embedding below follows the C text
  statement by statement. What C leaves to the machine is written out:
  \<^item> an \<open>int\<close> is a mathematical integer brought back into the 32-bit two's complement
    range by \<open>wrap_int\<close> after every arithmetic operation of the source (ISO C leaves
    signed overflow undefined; the wrap-around is what the compiled code computes);
  \<^item> every function returns an \<open>option\<close>: \<open>None\<close> stands for an access the C text
    performs outside an allocated block (a \<open>memcpy\<close> past the end of a buffer, through a
    null or released data pointer, a read of memory that was never allocated, a second
    \<open>free\<close>, a division trap), \<open>Some\<close> carries the returned error code and the memory
    after the call;
  \<^item> the outcome of each \<open>malloc\<close> is an argument of the function that calls it, so that
    a failing allocator is an input like any other.
  The \<open>DebugPrint\<close> calls write a diagnostic line and touch no program state; they
  are left out.
\<close>

subsection \<open>Integers of the C text\<close>

definition INT_MAX :: int where
  "INT_MAX = 2147483647"

definition INT_MIN :: int where
  "INT_MIN = - 2147483648"

text \<open>The value an \<open>int\<close> holds after an arithmetic result \<open>x\<close> is stored in it.\<close>

definition wrap_int :: "int \<Rightarrow> int" where
  "wrap_int x = (x + 2147483648) mod 4294967296 - 2147483648"

text \<open>
  C division truncates towards zero; a zero divisor and \<open>INT_MIN / -1\<close> trap.
\<close>

definition c_div :: "int \<Rightarrow> int \<Rightarrow> int option" where
  "c_div a b =
     (if b = 0 \<or> (a = INT_MIN \<and> b = - 1) then None
      else Some (sgn a * sgn b * (\<bar>a\<bar> div \<bar>b\<bar>)))"

subsection \<open>Data\<close>

type_synonym byte = "8 word"

text \<open>
  The error codes \<open>xGArr_tErr\<close>: the constants the C file returns, in the order of its
  table \<open>xGArr_ksaErrorStrings\<close> (the enumeration itself is declared in
  xGrowableArray.h).
\<close>

datatype xGArr_tErr =
    xGArr_tErr_NoErr
  | xGArr_tErr_InvalidObject
  | xGArr_tErr_InvalidSignature
  | xGArr_tErr_AllocationFailed
  | xGArr_tErr_LastItem
  | xGArr_tErr_InvalidErrorCode

text \<open>
  What the data pointer \<open>mpData\<close> refers to: nothing (\<open>NULL\<close>), a block of bytes the
  array owns, or a block that has been given back to the allocator.
\<close>

datatype storage = Null | Block "byte list" | Freed

text \<open>
  The struct \<open>xGrowableArray\<close>, with the fields the C file reads and writes: the
  validity tag, the count, the capacity, the element size, the byte size of the block,
  the cursor and the storage. The struct is declared in xGrowableArray.h; the counters
  are taken as \<open>int\<close>, like the parameters of \<open>xGArr_New\<close> they are initialised from.
\<close>

record xGrowableArray =
  mSignature :: int
  mnNumItems :: int
  mnMaxNumItems :: int
  mnItemSizeBytes :: int
  mnMaxSizeBytes :: int
  mnNext :: int
  mpData :: storage

text \<open>
  Modelled from the spec: the macro \<open>xGArr_kSignature\<close> of xGrowableArray.h, the
  validity tag a live instance carries. The number itself is immaterial; the proofs use
  only that it differs from the value \<open>0x1\<close> that \<open>xGArr_Delete\<close> writes over it.
\<close>

definition xGArr_kSignature :: int where
  "xGArr_kSignature = 141972531"

text \<open>
  Memory. It holds the structs, by address, and what the allocator has been given back:
  \<open>released\<close> lists the storage blocks passed to \<open>free\<close>, the latest first. A struct
  block is either allocated or has been released by \<open>free\<close>; a released struct keeps
  its bytes, which is what lets \<open>xGArr_Verify\<close> read the overwritten signature through a
  stale handle. A handle \<open>xGrowableArrayRef\<close> is \<open>NULL\<close> (\<open>None\<close>) or an address.
\<close>

datatype cell = Live xGrowableArray | Released xGrowableArray

record heap =
  structs :: "nat \<Rightarrow> cell option"
  released :: "byte list list"

type_synonym xGrowableArrayRef = "nat option"

fun contents :: "cell \<Rightarrow> xGrowableArray" where
  "contents (Live s) = s"
| "contents (Released s) = s"

fun put :: "cell \<Rightarrow> xGrowableArray \<Rightarrow> cell" where
  "put (Live _) s = Live s"
| "put (Released _) s = Released s"

text \<open>The struct a handle points to, with its address; \<open>None\<close> where there is none.\<close>

definition load :: "heap \<Rightarrow> xGrowableArrayRef \<Rightarrow> (nat \<times> cell) option" where
  "load h this =
     (case this of None \<Rightarrow> None | Some a \<Rightarrow> map_option (Pair a) (structs h a))"

text \<open>A write through \<open>this->\<close>: the struct at address \<open>a\<close> replaced.\<close>

definition store :: "heap \<Rightarrow> nat \<Rightarrow> cell \<Rightarrow> heap" where
  "store h a c = h\<lparr> structs := (structs h)(a \<mapsto> c) \<rparr>"

subsection \<open>The C library calls\<close>

text \<open>
  One answer of the allocator: \<open>None\<close> when \<open>malloc\<close> returns \<open>NULL\<close>, otherwise the
  indeterminate bytes the fresh block holds. A negative \<open>int\<close> converted to \<open>size_t\<close>
  asks for more than half of the address space, which no allocator grants.
\<close>

type_synonym allocation = "(nat \<Rightarrow> byte) option"

definition malloc :: "allocation \<Rightarrow> int \<Rightarrow> storage" where
  "malloc m n =
     (case m of
        None \<Rightarrow> Null
      | Some g \<Rightarrow> if n < 0 then Null else Block (map g [0..<nat n]))"

text \<open>
  \<open>free\<close> of a data pointer: nothing for \<open>NULL\<close>, a fault for a block released before.
  The result is the memory, with the block among the released ones, and what the pointer
  refers to afterwards.
\<close>

fun free_data :: "heap \<Rightarrow> storage \<Rightarrow> (heap \<times> storage) option" where
  "free_data h Null = Some (h, Null)"
| "free_data h (Block b) = Some (h\<lparr> released := b # released h \<rparr>, Freed)"
| "free_data h Freed = None"

text \<open>\<open>free\<close> of a struct block.\<close>

fun free_cell :: "cell \<Rightarrow> cell option" where
  "free_cell (Live s) = Some (Released s)"
| "free_cell (Released s) = None"

text \<open>
  \<open>memcpy (&block[off], src, n)\<close>: \<open>n\<close> bytes of the caller's buffer \<open>src\<close> written
  into the block at byte offset \<open>off\<close>.
\<close>

definition memcpy_to :: "storage \<Rightarrow> int \<Rightarrow> byte list \<Rightarrow> int \<Rightarrow> storage option" where
  "memcpy_to p off src n =
     (case p of
        Block b \<Rightarrow>
          if 0 \<le> off \<and> 0 \<le> n \<and> nat n \<le> length src \<and> nat off + nat n \<le> length b
          then Some (Block (take (nat off) b @ take (nat n) src @ drop (nat off + nat n) b))
          else None
      | _ \<Rightarrow> None)"

text \<open>
  \<open>memcpy (dest, &block[off], n)\<close>: \<open>n\<close> bytes of the block read into the caller's
  buffer \<open>dest\<close>; the result is the buffer afterwards.
\<close>

definition memcpy_from :: "byte list \<Rightarrow> storage \<Rightarrow> int \<Rightarrow> int \<Rightarrow> byte list option" where
  "memcpy_from dest p off n =
     (case p of
        Block b \<Rightarrow>
          if 0 \<le> off \<and> 0 \<le> n \<and> nat n \<le> length dest \<and> nat off + nat n \<le> length b
          then Some (take (nat n) (drop (nat off) b) @ drop (nat n) dest)
          else None
      | _ \<Rightarrow> None)"

text \<open>\<open>memcpy (new, old, n)\<close> between two blocks.\<close>

definition memcpy_block :: "storage \<Rightarrow> storage \<Rightarrow> int \<Rightarrow> storage option" where
  "memcpy_block new old n =
     (case old of Block b \<Rightarrow> memcpy_to new 0 b n | _ \<Rightarrow> None)"

subsection \<open>The operations\<close>

text \<open>
  \<open>xGArr_Verify\<close> (lines 308-331): the null check, then the signature check. It reads
  the struct and writes nothing.
\<close>

definition xGArr_Verify :: "heap \<Rightarrow> xGrowableArrayRef \<Rightarrow> xGArr_tErr option" where
  "xGArr_Verify h this =
     (case this of
        None \<Rightarrow> Some xGArr_tErr_InvalidObject
      | Some a \<Rightarrow>
          (case structs h a of
             None \<Rightarrow> None
           | Some c \<Rightarrow>
               if xGArr_kSignature \<noteq> mSignature (contents c)
               then Some xGArr_tErr_InvalidSignature
               else Some xGArr_tErr_NoErr))"

text \<open>
  \<open>xGArr_New\<close> (lines 45-98). \<open>ma\<close> is the address \<open>malloc\<close> returns for the struct (or \<open>None\<close>),
  \<open>md\<close> the allocator's answer for the storage. \<open>opList\<close> is the caller's handle
  variable: \<open>None\<close> when the pointer to it is \<open>NULL\<close>, else its current value; the third
  component of the result is the variable afterwards.
\<close>

definition xGArr_New ::
  "nat option \<Rightarrow> allocation \<Rightarrow> heap \<Rightarrow> xGrowableArrayRef option \<Rightarrow> int \<Rightarrow> int
     \<Rightarrow> (xGArr_tErr \<times> heap \<times> xGrowableArrayRef option) option" where
  "xGArr_New ma md h opList inSize inInitialNumItems =
     (case ma of
        None \<Rightarrow> Some (xGArr_tErr_AllocationFailed, h, opList)
      | Some a \<Rightarrow>
          let bytes = wrap_int (inInitialNumItems * inSize);
              s = \<lparr> mSignature = xGArr_kSignature,
                    mnNumItems = 0,
                    mnMaxNumItems = inInitialNumItems,
                    mnItemSizeBytes = inSize,
                    mnMaxSizeBytes = bytes,
                    mnNext = 0,
                    mpData = malloc md bytes \<rparr>
          in if mpData s = Null
             then Some (xGArr_tErr_AllocationFailed, store h a (Released s), opList)
             else (case opList of
                     None \<Rightarrow> None
                   | Some _ \<Rightarrow> Some (xGArr_tErr_NoErr, store h a (Live s), Some (Some a))))"

text \<open>
  \<open>xGArr_Delete\<close> (lines 100-140). \<open>iopList\<close> is the caller's handle variable as in \<open>xGArr_New\<close>.
\<close>

definition xGArr_Delete ::
  "heap \<Rightarrow> xGrowableArrayRef option \<Rightarrow> (xGArr_tErr \<times> heap \<times> xGrowableArrayRef option) option" where
  "xGArr_Delete h iopList =
     (case iopList of
        None \<Rightarrow> Some (xGArr_tErr_InvalidObject, h, iopList)
      | Some this \<Rightarrow>
          (case xGArr_Verify h this of
             None \<Rightarrow> None
           | Some eResult \<Rightarrow>
               if eResult \<noteq> xGArr_tErr_NoErr then Some (eResult, h, iopList)
               else (case load h this of
                   None \<Rightarrow> None
                 | Some (a, c) \<Rightarrow>
                     let s = (contents c)\<lparr> mSignature := 1 \<rparr> in
                     (case free_data h (mpData s) of
                        None \<Rightarrow> None
                      | Some (h1, d) \<Rightarrow>
                          (case free_cell (put c (s\<lparr> mpData := d \<rparr>)) of
                             None \<Rightarrow> None
                           | Some c' \<Rightarrow> Some (xGArr_tErr_NoErr, store h1 a c', Some None))))))"

text \<open>
  The block of \<open>xGArr_Add\<close> that runs when the array is full (lines 155-177): \<open>Inl\<close>
  the error code when the allocation fails (nothing has been written or released then),
  \<open>Inr\<close> the memory after the old block has been released and the struct after the move
  to the doubled block.
\<close>

definition xGArr_Add_grow ::
  "allocation \<Rightarrow> heap \<Rightarrow> xGrowableArray \<Rightarrow> (xGArr_tErr + heap \<times> xGrowableArray) option" where
  "xGArr_Add_grow m h s =
     (case malloc m (wrap_int (mnMaxSizeBytes s * 2)) of
        Null \<Rightarrow> Some (Inl xGArr_tErr_AllocationFailed)
      | Freed \<Rightarrow> None
      | Block nb \<Rightarrow>
          (case memcpy_block (Block nb) (mpData s) (mnMaxSizeBytes s) of
             None \<Rightarrow> None
           | Some pNewStorage \<Rightarrow>
               (case free_data h (mpData s) of
                  None \<Rightarrow> None
                | Some (h1, _) \<Rightarrow>
                    let bytes = wrap_int (mnMaxSizeBytes s * 2) in
                    (case c_div bytes (mnItemSizeBytes s) of
                       None \<Rightarrow> None
                     | Some q \<Rightarrow>
                         Some (Inr (h1, s\<lparr> mpData := pNewStorage,
                                           mnMaxSizeBytes := bytes,
                                           mnMaxNumItems := q \<rparr>))))))"

text \<open>
  \<open>xGArr_Add\<close> (lines 143-199). \<open>m\<close> is the allocator's answer should the array have
  to grow, \<open>ipSrc\<close> the caller's buffer the element is copied from.
\<close>

definition xGArr_Add ::
  "allocation \<Rightarrow> heap \<Rightarrow> xGrowableArrayRef \<Rightarrow> byte list \<Rightarrow> (xGArr_tErr \<times> heap) option" where
  "xGArr_Add m h this ipSrc =
     (case xGArr_Verify h this of
        None \<Rightarrow> None
      | Some eResult \<Rightarrow>
          if eResult \<noteq> xGArr_tErr_NoErr then Some (eResult, h)
          else (case load h this of
              None \<Rightarrow> None
            | Some (a, c) \<Rightarrow>
                (case (if \<not> (mnNumItems (contents c) < mnMaxNumItems (contents c))
                       then xGArr_Add_grow m h (contents c)
                       else Some (Inr (h, contents c))) of
                   None \<Rightarrow> None
                 | Some (Inl e) \<Rightarrow> Some (e, h)
                 | Some (Inr (h1, s)) \<Rightarrow>
                     (case memcpy_to (mpData s)
                             (wrap_int (mnNumItems s * mnItemSizeBytes s))
                             ipSrc (mnItemSizeBytes s) of
                        None \<Rightarrow> None
                      | Some d \<Rightarrow>
                          Some (xGArr_tErr_NoErr,
                                store h1 a (put c (s\<lparr> mpData := d,
                                                      mnNumItems := wrap_int (mnNumItems s + 1) \<rparr>)))))))"

text \<open>\<open>xGArr_ResetIterator\<close> (lines 202-226).\<close>

definition xGArr_ResetIterator ::
  "heap \<Rightarrow> xGrowableArrayRef \<Rightarrow> (xGArr_tErr \<times> heap) option" where
  "xGArr_ResetIterator h this =
     (case xGArr_Verify h this of
        None \<Rightarrow> None
      | Some eResult \<Rightarrow>
          if eResult \<noteq> xGArr_tErr_NoErr then Some (eResult, h)
          else (case load h this of
              None \<Rightarrow> None
            | Some (a, c) \<Rightarrow>
                Some (xGArr_tErr_NoErr, store h a (put c ((contents c)\<lparr> mnNext := 0 \<rparr>)))))"

text \<open>
  \<open>xGArr_NextItem\<close> (lines 228-266). \<open>opDest\<close> is the caller's buffer before the call; the third
  component of the result is that buffer after it.
\<close>

definition xGArr_NextItem ::
  "heap \<Rightarrow> xGrowableArrayRef \<Rightarrow> byte list \<Rightarrow> (xGArr_tErr \<times> heap \<times> byte list) option" where
  "xGArr_NextItem h this opDest =
     (case xGArr_Verify h this of
        None \<Rightarrow> None
      | Some eResult \<Rightarrow>
          if eResult \<noteq> xGArr_tErr_NoErr then Some (eResult, h, opDest)
          else (case load h this of
              None \<Rightarrow> None
            | Some (a, c) \<Rightarrow>
                let s = contents c in
                if mnNext s \<ge> mnNumItems s then Some (xGArr_tErr_LastItem, h, opDest)
                else (case memcpy_from opDest (mpData s)
                             (wrap_int (mnNext s * mnItemSizeBytes s))
                             (mnItemSizeBytes s) of
                        None \<Rightarrow> None
                      | Some dest \<Rightarrow>
                          Some (xGArr_tErr_NoErr,
                                store h a (put c (s\<lparr> mnNext := wrap_int (mnNext s + 1) \<rparr>)),
                                dest))))"

text \<open>
  \<open>xGArr_Clear\<close> (lines 268-305). \<open>m\<close> is the allocator's answer for the fresh block.
  The old block is released before the new one is asked for, and the counters are reset
  only after the allocation has succeeded.
\<close>

definition xGArr_Clear ::
  "allocation \<Rightarrow> heap \<Rightarrow> xGrowableArrayRef \<Rightarrow> (xGArr_tErr \<times> heap) option" where
  "xGArr_Clear m h this =
     (case xGArr_Verify h this of
        None \<Rightarrow> None
      | Some eResult \<Rightarrow>
          if eResult \<noteq> xGArr_tErr_NoErr then Some (eResult, h)
          else (case load h this of
              None \<Rightarrow> None
            | Some (a, c) \<Rightarrow>
                (case free_data h (mpData (contents c)) of
                   None \<Rightarrow> None
                 | Some (h1, _) \<Rightarrow>
                     let s = (contents c)\<lparr> mpData := malloc m (mnMaxSizeBytes (contents c)) \<rparr> in
                     if mpData s = Null
                     then Some (xGArr_tErr_AllocationFailed, store h1 a (put c s))
                     else Some (xGArr_tErr_NoErr,
                                store h1 a (put c (s\<lparr> mnNumItems := 0, mnNext := 0 \<rparr>))))))"

subsection \<open>Sequences of calls on one handle\<close>

text \<open>
  A client's calls on a handle, each with the inputs the environment supplies: the
  element and the allocator's answer for \<open>xGArr_Add\<close>, the destination buffer for
  \<open>xGArr_NextItem\<close>, the allocator's answer for \<open>xGArr_Clear\<close>.
\<close>

datatype command =
    Add "byte list" allocation
  | ResetIterator
  | NextItem "byte list"
  | Clear allocation

text \<open>
  One call: the returned code, the memory afterwards, and the destination buffer after
  the call (empty for the calls that have none).
\<close>

fun step :: "heap \<Rightarrow> xGrowableArrayRef \<Rightarrow> command \<Rightarrow> (xGArr_tErr \<times> heap \<times> byte list) option" where
  "step h this (Add ipSrc m) = map_option (\<lambda>(e, h'). (e, h', [])) (xGArr_Add m h this ipSrc)"
| "step h this ResetIterator = map_option (\<lambda>(e, h'). (e, h', [])) (xGArr_ResetIterator h this)"
| "step h this (NextItem opDest) = xGArr_NextItem h this opDest"
| "step h this (Clear m) = map_option (\<lambda>(e, h'). (e, h', [])) (xGArr_Clear m h this)"

text \<open>
  The calls of a list in order: what each returned (code and destination buffer), and the
  memory after the last one.
\<close>

fun run :: "heap \<Rightarrow> xGrowableArrayRef \<Rightarrow> command list
    \<Rightarrow> ((xGArr_tErr \<times> byte list) list \<times> heap) option" where
  "run h this [] = Some ([], h)"
| "run h this (c # cs) =
     (case step h this c of
        None \<Rightarrow> None
      | Some (e, h', out) \<Rightarrow>
          (case run h' this cs of
             None \<Rightarrow> None
           | Some (obs, h'') \<Rightarrow> Some ((e, out) # obs, h'')))"

text \<open>Every \<open>xGArr_Clear\<close> of the list returned \<open>xGArr_tErr_NoErr\<close>.\<close>

fun clears_succeeded :: "command list \<Rightarrow> (xGArr_tErr \<times> byte list) list \<Rightarrow> bool" where
  "clears_succeeded (Clear m # cs) ((e, out) # obs) =
     (e = xGArr_tErr_NoErr \<and> clears_succeeded cs obs)"
| "clears_succeeded (c # cs) (ob # obs) = clears_succeeded cs obs"
| "clears_succeeded cs obs = True"

text \<open>
  A sequence of appends: the elements \<open>xs\<close> in order, the \<open>i\<close>-th with the allocator's
  answer \<open>ms ! i\<close>.
\<close>

definition appends :: "byte list list \<Rightarrow> allocation list \<Rightarrow> command list" where
  "appends xs ms = map (\<lambda>(x, m). Add x m) (zip xs ms)"

text \<open>The test at the head of \<open>xGArr_Add\<close> that sends it into the growth block.\<close>

definition is_full :: "heap \<Rightarrow> xGrowableArrayRef \<Rightarrow> bool" where
  "is_full h this =
     (case load h this of
        None \<Rightarrow> False
      | Some (a, c) \<Rightarrow> \<not> (mnNumItems (contents c) < mnMaxNumItems (contents c)))"

text \<open>
  A growth event is an \<open>xGArr_Add\<close> that entered the growth block and returned
  \<open>xGArr_tErr_NoErr\<close>; \<open>growth_events\<close> counts them along a list of calls.
\<close>

fun grows :: "heap \<Rightarrow> xGrowableArrayRef \<Rightarrow> command \<Rightarrow> bool" where
  "grows h this (Add ipSrc m) =
     (is_full h this \<and> map_option fst (xGArr_Add m h this ipSrc) = Some xGArr_tErr_NoErr)"
| "grows h this c = False"

fun growth_events :: "heap \<Rightarrow> xGrowableArrayRef \<Rightarrow> command list \<Rightarrow> nat" where
  "growth_events h this [] = 0"
| "growth_events h this (c # cs) =
     (case step h this c of
        None \<Rightarrow> 0
      | Some (e, h', out) \<Rightarrow> (if grows h this c then 1 else 0) + growth_events h' this cs)"

text \<open>The fields of the struct behind a handle, as the data model names them.\<close>

definition count :: "heap \<Rightarrow> xGrowableArrayRef \<Rightarrow> int" where
  "count h this = (case load h this of None \<Rightarrow> 0 | Some (a, c) \<Rightarrow> mnNumItems (contents c))"

definition capacity :: "heap \<Rightarrow> xGrowableArrayRef \<Rightarrow> int" where
  "capacity h this = (case load h this of None \<Rightarrow> 0 | Some (a, c) \<Rightarrow> mnMaxNumItems (contents c))"

definition cursor :: "heap \<Rightarrow> xGrowableArrayRef \<Rightarrow> int" where
  "cursor h this = (case load h this of None \<Rightarrow> 0 | Some (a, c) \<Rightarrow> mnNext (contents c))"

definition elementSize :: "heap \<Rightarrow> xGrowableArrayRef \<Rightarrow> int" where
  "elementSize h this = (case load h this of None \<Rightarrow> 0 | Some (a, c) \<Rightarrow> mnItemSizeBytes (contents c))"

definition sizeBytes :: "heap \<Rightarrow> xGrowableArrayRef \<Rightarrow> int" where
  "sizeBytes h this = (case load h this of None \<Rightarrow> 0 | Some (a, c) \<Rightarrow> mnMaxSizeBytes (contents c))"

definition storage_of :: "heap \<Rightarrow> xGrowableArrayRef \<Rightarrow> storage" where
  "storage_of h this = (case load h this of None \<Rightarrow> Null | Some (a, c) \<Rightarrow> mpData (contents c))"

text \<open>
  The elements an array holds, read off its block: element \<open>i\<close> is the
  \<open>mnItemSizeBytes\<close> bytes at byte offset \<open>i * mnItemSizeBytes\<close>, for \<open>i\<close> below
  \<open>mnNumItems\<close>.
\<close>

definition elements :: "heap \<Rightarrow> xGrowableArrayRef \<Rightarrow> byte list list" where
  "elements h this =
     (case load h this of
        None \<Rightarrow> []
      | Some (a, c) \<Rightarrow>
          (case mpData (contents c) of
             Block b \<Rightarrow>
               map (\<lambda>i. take (nat (mnItemSizeBytes (contents c)))
                          (drop (i * nat (mnItemSizeBytes (contents c))) b))
                 [0..<nat (mnNumItems (contents c))]
           | _ \<Rightarrow> []))"

text \<open>The invariants of the data model, on the struct behind a handle.\<close>

definition data_model_invariants :: "heap \<Rightarrow> xGrowableArrayRef \<Rightarrow> bool" where
  "data_model_invariants h this =
     (0 \<le> count h this \<and> count h this \<le> capacity h this
      \<and> 0 \<le> cursor h this \<and> cursor h this \<le> count h this
      \<and> 1 \<le> capacity h this
      \<and> (case storage_of h this of
            Block b \<Rightarrow> int (length b) = capacity h this * elementSize h this
          | _ \<Rightarrow> False))"

text \<open>
  The relation between memory and the sequence of elements a handle stands for, used in
  the proofs: the struct is valid with element size \<open>E\<close>, holds the elements \<open>xs\<close>
  (each of \<open>E\<close> bytes) at the front of its block, has its cursor at \<open>n\<close>, and its sizes fit.
\<close>

definition holds :: "heap \<Rightarrow> xGrowableArrayRef \<Rightarrow> int \<Rightarrow> byte list list \<Rightarrow> nat \<Rightarrow> bool" where
  "holds h this E xs n =
     (case load h this of
        None \<Rightarrow> False
      | Some (a, c) \<Rightarrow>
          mSignature (contents c) = xGArr_kSignature
          \<and> mnItemSizeBytes (contents c) = E \<and> 0 < E
          \<and> mnNumItems (contents c) = int (length xs)
          \<and> mnNext (contents c) = int n \<and> n \<le> length xs
          \<and> list_all (\<lambda>x. length x = nat E) xs
          \<and> mnMaxSizeBytes (contents c) \<le> INT_MAX
          \<and> int (length xs) * E \<le> mnMaxSizeBytes (contents c)
          \<and> mnMaxSizeBytes (contents c) \<le> mnMaxNumItems (contents c) * E
          \<and> (case mpData (contents c) of
                Block b \<Rightarrow> int (length b) = mnMaxSizeBytes (contents c)
                             \<and> take (length xs * nat E) b = concat xs
              | _ \<Rightarrow> False))"

subsection \<open>A worked scenario\<close>

text \<open>
  The scenario of the specification: an array of 4-byte elements with initial capacity 2
  at address 0, to which the values 1, 2 and 3 are appended. \<open>zeros\<close> is an allocator
  answer whose fresh block is all zero; \<open>item v\<close> is the 4-byte element of value \<open>v\<close>.
\<close>

definition zeros :: "nat \<Rightarrow> byte" where
  "zeros i = 0"

definition item :: "byte \<Rightarrow> byte list" where
  "item v = [v, 0, 0, 0]"

text \<open>The memory before anything is allocated.\<close>

definition empty_memory :: heap where
  "empty_memory = \<lparr> structs = Map.empty, released = [] \<rparr>"

text \<open>The memory after \<open>xGArr_New (&list, 4, 2)\<close>.\<close>

definition scenario_new :: heap where
  "scenario_new =
     \<lparr> structs =
         [0 \<mapsto> Live \<lparr> mSignature = xGArr_kSignature, mnNumItems = 0, mnMaxNumItems = 2,
                        mnItemSizeBytes = 4, mnMaxSizeBytes = 8, mnNext = 0,
                        mpData = Block [0, 0, 0, 0, 0, 0, 0, 0] \<rparr>],
       released = [] \<rparr>"

text \<open>The memory after the values 1 and 2 have been appended: the array is full.\<close>

definition scenario_full :: heap where
  "scenario_full =
     \<lparr> structs =
         [0 \<mapsto> Live \<lparr> mSignature = xGArr_kSignature, mnNumItems = 2, mnMaxNumItems = 2,
                        mnItemSizeBytes = 4, mnMaxSizeBytes = 8, mnNext = 0,
                        mpData = Block [1, 0, 0, 0, 2, 0, 0, 0] \<rparr>],
       released = [] \<rparr>"

text \<open>
  The memory after the value 3 has been appended too: the block has doubled and the old
  block has been released.
\<close>

definition scenario_grown :: heap where
  "scenario_grown =
     \<lparr> structs =
         [0 \<mapsto> Live \<lparr> mSignature = xGArr_kSignature, mnNumItems = 3, mnMaxNumItems = 4,
                        mnItemSizeBytes = 4, mnMaxSizeBytes = 16, mnNext = 0,
                        mpData = Block [1, 0, 0, 0, 2, 0, 0, 0, 3, 0, 0, 0, 0, 0, 0, 0] \<rparr>],
       released = [[1, 0, 0, 0, 2, 0, 0, 0]] \<rparr>"

text \<open>The memory after \<open>xGArr_Delete\<close> on the full array.\<close>

definition scenario_deleted :: heap where
  "scenario_deleted =
     \<lparr> structs =
         [0 \<mapsto> Released \<lparr> mSignature = 1, mnNumItems = 2, mnMaxNumItems = 2,
                            mnItemSizeBytes = 4, mnMaxSizeBytes = 8, mnNext = 0,
                            mpData = Freed \<rparr>],
       released = [[1, 0, 0, 0, 2, 0, 0, 0]] \<rparr>"

text \<open>
  The memory after \<open>xGArr_New (&list, 4, 1073741825)\<close>: the product of the two arguments
  does not fit an \<open>int\<close> and comes out as 4.
\<close>

definition scenario_overflow :: heap where
  "scenario_overflow =
     \<lparr> structs =
         [0 \<mapsto> Live \<lparr> mSignature = xGArr_kSignature, mnNumItems = 0,
                        mnMaxNumItems = 1073741825, mnItemSizeBytes = 4, mnMaxSizeBytes = 4,
                        mnNext = 0, mpData = Block [0, 0, 0, 0] \<rparr>],
       released = [] \<rparr>"

text \<open>
  That instance after the value 1 has been appended: the block of 4 bytes is used up,
  while the capacity field still reads 1073741825.
\<close>

definition scenario_overflow_one :: heap where
  "scenario_overflow_one =
     \<lparr> structs =
         [0 \<mapsto> Live \<lparr> mSignature = xGArr_kSignature, mnNumItems = 1,
                        mnMaxNumItems = 1073741825, mnItemSizeBytes = 4, mnMaxSizeBytes = 4,
                        mnNext = 0, mpData = Block [1, 0, 0, 0] \<rparr>],
       released = [] \<rparr>"

text \<open>
  The full array with a traversal in progress: after \<open>xGArr_ResetIterator\<close> and one
  \<open>xGArr_NextItem\<close> the cursor is at 1.
\<close>

definition scenario_midway :: heap where
  "scenario_midway =
     \<lparr> structs =
         [0 \<mapsto> Live \<lparr> mSignature = xGArr_kSignature, mnNumItems = 2, mnMaxNumItems = 2,
                        mnItemSizeBytes = 4, mnMaxSizeBytes = 8, mnNext = 1,
                        mpData = Block [1, 0, 0, 0, 2, 0, 0, 0] \<rparr>],
       released = [] \<rparr>"

text \<open>The memory after the value 3 has been appended during that traversal.\<close>

definition scenario_midway_grown :: heap where
  "scenario_midway_grown =
     \<lparr> structs =
         [0 \<mapsto> Live \<lparr> mSignature = xGArr_kSignature, mnNumItems = 3, mnMaxNumItems = 4,
                        mnItemSizeBytes = 4, mnMaxSizeBytes = 16, mnNext = 1,
                        mpData = Block [1, 0, 0, 0, 2, 0, 0, 0, 3, 0, 0, 0, 0, 0, 0, 0] \<rparr>],
       released = [[1, 0, 0, 0, 2, 0, 0, 0]] \<rparr>"

text \<open>The memory after a successful \<open>xGArr_Clear\<close> of the grown array.\<close>

definition scenario_cleared :: heap where
  "scenario_cleared =
     \<lparr> structs =
         [0 \<mapsto> Live \<lparr> mSignature = xGArr_kSignature, mnNumItems = 0, mnMaxNumItems = 4,
                        mnItemSizeBytes = 4, mnMaxSizeBytes = 16, mnNext = 0,
                        mpData = Block [0, 0, 0, 0, 0, 0, 0, 0, 0, 0, 0, 0, 0, 0, 0, 0] \<rparr>],
       released = [[1, 0, 0, 0, 2, 0, 0, 0, 3, 0, 0, 0, 0, 0, 0, 0],
                   [1, 0, 0, 0, 2, 0, 0, 0]] \<rparr>"

text \<open>
  The memory after an \<open>xGArr_Clear\<close> of the grown array whose allocation failed: the
  block is released, the data pointer is \<open>NULL\<close>, the count is still 3.
\<close>

definition scenario_clear_failed :: heap where
  "scenario_clear_failed =
     \<lparr> structs =
         [0 \<mapsto> Live \<lparr> mSignature = xGArr_kSignature, mnNumItems = 3, mnMaxNumItems = 4,
                        mnItemSizeBytes = 4, mnMaxSizeBytes = 16, mnNext = 0,
                        mpData = Null \<rparr>],
       released = [[1, 0, 0, 0, 2, 0, 0, 0, 3, 0, 0, 0, 0, 0, 0, 0],
                   [1, 0, 0, 0, 2, 0, 0, 0]] \<rparr>"

section \<open>Basic facts\<close>

subsection \<open>Memory\<close>

lemma structs_store [simp]: "structs (store h a c) = (structs h)(a \<mapsto> c)"
  by (simp add: store_def)

lemma released_store [simp]: "released (store h a c) = released h"
  by (simp add: store_def)

lemma load_store [simp]: "load (store h a c) (Some a) = Some (a, c)"
  by (simp add: load_def)

lemma load_released [simp]: "load (h\<lparr> released := r \<rparr>) this = load h this"
  by (cases this) (simp_all add: load_def)

lemma structs_free_data: "free_data h p = Some (h1, d) \<Longrightarrow> structs h1 = structs h"
  by (cases p) auto

subsection \<open>Handles\<close>

lemma Verify_NoErr_iff:
  "xGArr_Verify h this = Some xGArr_tErr_NoErr \<longleftrightarrow>
     (\<exists>a c. this = Some a \<and> structs h a = Some c \<and> mSignature (contents c) = xGArr_kSignature)"
  by (auto simp: xGArr_Verify_def split: option.splits)

lemma valid_handle:
  assumes "xGArr_Verify h this = Some xGArr_tErr_NoErr" and "load h this = Some (a, c)"
  shows "this = Some a" and "structs h a = Some c" and "mSignature (contents c) = xGArr_kSignature"
  using assms by (auto simp: xGArr_Verify_def load_def split: option.splits if_splits)

lemma contents_put [simp]: "contents (put c s) = s"
  by (cases c) simp_all

lemma put_put [simp]: "put (put c s) t = put c t"
  by (cases c) simp_all

lemma put_contents [simp]: "put c (contents c) = c"
  by (cases c) simp_all

lemma Verify_null [simp]: "xGArr_Verify h None = Some xGArr_tErr_InvalidObject"
  by (simp add: xGArr_Verify_def)

lemma Verify_bad_signature:
  "structs h a = Some c \<Longrightarrow> mSignature (contents c) \<noteq> xGArr_kSignature
     \<Longrightarrow> xGArr_Verify h (Some a) = Some xGArr_tErr_InvalidSignature"
  by (simp add: xGArr_Verify_def)

lemma kSignature_not_trashed: "xGArr_kSignature \<noteq> 1"
  by (simp add: xGArr_kSignature_def)

lemma Delete_NoErr:
  assumes "xGArr_Delete h (Some this) = Some (xGArr_tErr_NoErr, h', v)"
  shows "\<exists>a c c'. this = Some a \<and> structs h a = Some c \<and> mSignature (contents c) = xGArr_kSignature
           \<and> structs h' a = Some c' \<and> mSignature (contents c') = 1 \<and> v = Some None"
proof -
  from assms obtain e where e: "xGArr_Verify h this = Some e"
    by (auto simp: xGArr_Delete_def split: option.splits)
  with assms have "e = xGArr_tErr_NoErr"
    by (auto simp: xGArr_Delete_def split: option.splits if_splits)
  with e obtain a c where ac: "this = Some a" "structs h a = Some c"
      "mSignature (contents c) = xGArr_kSignature"
    by (auto simp: Verify_NoErr_iff)
  with assms e show ?thesis
    by (cases c; cases "mpData (contents c)")
       (auto simp: xGArr_Delete_def load_def Let_def split: option.splits if_splits)
qed

lemma NextItem_exhausted:
  assumes "xGArr_Verify h this = Some xGArr_tErr_NoErr"
    and "load h this = Some (a, c)"
    and "mnNumItems (contents c) \<le> mnNext (contents c)"
  shows "xGArr_NextItem h this opDest = Some (xGArr_tErr_LastItem, h, opDest)"
  using assms by (simp add: xGArr_NextItem_def)

subsection \<open>Arithmetic of the C text\<close>

lemma wrap_int_id: "- 2147483648 \<le> x \<Longrightarrow> x \<le> 2147483647 \<Longrightarrow> wrap_int x = x"
  by (simp add: wrap_int_def)

lemma wrap_int_le_self: "0 \<le> x \<Longrightarrow> wrap_int x \<le> x"
proof -
  assume "0 \<le> x"
  then have "(x + 2147483648) mod 4294967296 \<le> x + 2147483648"
    by (intro zmod_le_nonneg_dividend) simp
  then show ?thesis by (simp add: wrap_int_def)
qed

lemma wrap_int_upper: "wrap_int x \<le> INT_MAX"
proof -
  have "(x + 2147483648) mod 4294967296 < 4294967296"
    by (rule pos_mod_bound) simp
  then show ?thesis by (simp add: wrap_int_def INT_MAX_def)
qed

lemma wrap_int_double:
  assumes "0 \<le> s" "s \<le> INT_MAX" "0 \<le> wrap_int (s * 2)"
  shows "wrap_int (s * 2) = s * 2" and "s * 2 \<le> INT_MAX"
proof -
  have le: "s * 2 \<le> INT_MAX"
  proof (rule ccontr)
    assume "\<not> s * 2 \<le> INT_MAX"
    then have lo: "2147483648 \<le> s * 2" and hi: "s * 2 < 4294967296"
      using assms(2) by (simp_all add: INT_MAX_def)
    have "(s * 2 + 2147483648) mod 4294967296 = s * 2 + 2147483648 - 4294967296"
      using lo hi by (intro mod_pos_pos_trivial [THEN trans [OF minus_mod_self2 [symmetric]]]) simp_all
    then have "wrap_int (s * 2) < 0"
      using hi by (simp add: wrap_int_def)
    with assms(3) show False by simp
  qed
  then show "s * 2 \<le> INT_MAX" .
  from le assms(1) show "wrap_int (s * 2) = s * 2"
    by (intro wrap_int_id) (simp_all add: INT_MAX_def)
qed

lemma full_exact:
  fixes n c E s :: int
  assumes "0 < E" "n * E \<le> s" "s \<le> c * E" "\<not> n < c"
  shows "n = c" and "s = c * E"
proof -
  have "c * E \<le> n * E"
    using assms(1,4) by (intro mult_right_mono) simp_all
  with assms(2,3) have eq: "n * E = c * E" and "s = c * E" by linarith+
  then show "s = c * E" by blast
  from eq assms(1) show "n = c" by simp
qed

lemma c_div_exact: "0 < E \<Longrightarrow> 0 \<le> c \<Longrightarrow> c_div (c * E * 2) E = Some (c * 2)"
  by (cases "c = 0") (simp_all add: c_div_def INT_MIN_def sgn_if abs_mult)

subsection \<open>The growth block and the copy into a slot\<close>

lemma grow_result:
  assumes E: "0 < E" "mnItemSizeBytes s = E"
    and sz: "mnMaxSizeBytes s \<le> INT_MAX" "mnNumItems s * E \<le> mnMaxSizeBytes s"
      "mnMaxSizeBytes s \<le> mnMaxNumItems s * E"
    and full: "\<not> mnNumItems s < mnMaxNumItems s" and nn: "0 \<le> mnNumItems s"
    and b: "mpData s = Block b" "int (length b) = mnMaxSizeBytes s"
    and g: "xGArr_Add_grow m h s = Some r"
  shows "r = Inl xGArr_tErr_AllocationFailed
      \<or> (\<exists>b'. r = Inr (h\<lparr> released := b # released h \<rparr>,
                         s\<lparr> mpData := Block (b @ b'),
                             mnMaxSizeBytes := mnMaxSizeBytes s * 2,
                             mnMaxNumItems := mnMaxNumItems s * 2 \<rparr>)
            \<and> length b' = length b \<and> mnMaxSizeBytes s * 2 \<le> INT_MAX)"
    and "mnNumItems s = mnMaxNumItems s" and "mnMaxSizeBytes s = mnMaxNumItems s * E"
proof -
  show eq: "mnNumItems s = mnMaxNumItems s" and ex: "mnMaxSizeBytes s = mnMaxNumItems s * E"
    using full_exact [OF E(1) sz(2,3) full] by simp_all
  have s0: "0 \<le> mnMaxSizeBytes s" using b(2) by linarith
  show "r = Inl xGArr_tErr_AllocationFailed
      \<or> (\<exists>b'. r = Inr (h\<lparr> released := b # released h \<rparr>,
                         s\<lparr> mpData := Block (b @ b'),
                             mnMaxSizeBytes := mnMaxSizeBytes s * 2,
                             mnMaxNumItems := mnMaxNumItems s * 2 \<rparr>)
            \<and> length b' = length b \<and> mnMaxSizeBytes s * 2 \<le> INT_MAX)"
  proof (cases "malloc m (wrap_int (mnMaxSizeBytes s * 2))")
    case Null
    with g show ?thesis by (simp add: xGArr_Add_grow_def)
  next
    case Freed
    with g show ?thesis by (simp add: xGArr_Add_grow_def)
  next
    case (Block nb)
    then obtain f where f: "m = Some f" "0 \<le> wrap_int (mnMaxSizeBytes s * 2)"
        "nb = map f [0..<nat (wrap_int (mnMaxSizeBytes s * 2))]"
      by (auto simp: malloc_def split: option.splits if_splits)
    note w = wrap_int_double [OF s0 sz(1) f(2)]
    have len: "length nb = 2 * length b"
      using f(3) w(1) b(2) by simp
    have nl: "nat (mnMaxSizeBytes s) = length b"
      using b(2) by linarith
    have cp: "memcpy_block (Block nb) (mpData s) (mnMaxSizeBytes s) = Some (Block (b @ drop (length b) nb))"
      using b(1) len s0 nl by (simp add: memcpy_block_def memcpy_to_def)
    have dv: "c_div (wrap_int (mnMaxSizeBytes s * 2)) (mnItemSizeBytes s) = Some (mnMaxNumItems s * 2)"
      using c_div_exact [OF E(1), of "mnMaxNumItems s"] nn eq ex w(1) E(2) by simp
    have "r = Inr (h\<lparr> released := b # released h \<rparr>,
                   s\<lparr> mpData := Block (b @ drop (length b) nb),
                             mnMaxSizeBytes := mnMaxSizeBytes s * 2,
                             mnMaxNumItems := mnMaxNumItems s * 2 \<rparr>)"
      using g Block cp dv b(1) w(1) by (simp add: xGArr_Add_grow_def)
    then show ?thesis using len w(2) by auto
  qed
qed

lemma Add_tail:
  assumes E: "0 < E" and sz: "size1 \<le> INT_MAX" "int (length b1) = size1" "int N * E \<le> size1"
    and ys: "take (N * nat E) b1 = ys"
    and cp: "memcpy_to (Block b1) (wrap_int (int N * E)) x E = Some d"
  shows "\<exists>b2. d = Block b2 \<and> length b2 = length b1 \<and> take (Suc N * nat E) b2 = ys @ take (nat E) x"
    and "nat E \<le> length x" and "int (Suc N) * E \<le> size1" and "wrap_int (int N + 1) = int (Suc N)"
proof -
  have "0 \<le> int N * E"
    using E by simp
  then have off: "wrap_int (int N * E) = int N * E"
    using sz(1,3) by (intro wrap_int_id) (simp_all add: INT_MAX_def)
  have noff: "nat (int N * E) = N * nat E"
    using E by (simp add: nat_mult_distrib)
  from cp have fit: "N * nat E + nat E \<le> length b1" and x: "nat E \<le> length x"
    and d: "d = Block (take (N * nat E) b1 @ take (nat E) x @ drop (N * nat E + nat E) b1)"
    by (auto simp: memcpy_to_def off noff split: if_splits)
  show "nat E \<le> length x" by (rule x)
  have "int (N * nat E + nat E) \<le> int (length b1)"
    using fit by (rule iffD2 [OF of_nat_le_iff])
  then show le: "int (Suc N) * E \<le> size1"
    using E sz(2) by (simp add: algebra_simps)
  have "int (Suc N) \<le> int (Suc N) * E"
    using E by (simp add: mult_le_cancel_left1)
  with le sz(1) have "int (Suc N) \<le> INT_MAX" by linarith
  then show "wrap_int (int N + 1) = int (Suc N)"
    by (simp add: wrap_int_id INT_MAX_def)
  have l1: "length (take (N * nat E) b1) = N * nat E"
    using fit by simp
  have "take (Suc N * nat E) (take (N * nat E) b1 @ take (nat E) x @ drop (N * nat E + nat E) b1)
      = take (N * nat E) b1 @ take (nat E) x"
    using l1 x by (simp add: min_absorb2)
  moreover have "length (take (N * nat E) b1 @ take (nat E) x @ drop (N * nat E + nat E) b1) = length b1"
    using fit x by (simp add: min_absorb2)
  ultimately show "\<exists>b2. d = Block b2 \<and> length b2 = length b1 \<and> take (Suc N * nat E) b2 = ys @ take (nat E) x"
    using d ys by simp
qed

subsection \<open>The operations keep the relation between memory and elements\<close>

lemma holdsE:
  assumes "holds h this E xs n"
  obtains a c b where "this = Some a" and "structs h a = Some c"
    and "mSignature (contents c) = xGArr_kSignature"
    and "mnItemSizeBytes (contents c) = E" and "0 < E"
    and "mnNumItems (contents c) = int (length xs)"
    and "mnNext (contents c) = int n" and "n \<le> length xs"
    and "list_all (\<lambda>x. length x = nat E) xs"
    and "mnMaxSizeBytes (contents c) \<le> INT_MAX"
    and "int (length xs) * E \<le> mnMaxSizeBytes (contents c)"
    and "mnMaxSizeBytes (contents c) \<le> mnMaxNumItems (contents c) * E"
    and "mpData (contents c) = Block b"
    and "int (length b) = mnMaxSizeBytes (contents c)"
    and "take (length xs * nat E) b = concat xs"
proof -
  from assms obtain a c where l: "load h this = Some (a, c)"
    by (auto simp: holds_def split: option.splits)
  then have ac: "this = Some a" "structs h a = Some c"
    by (auto simp: load_def split: option.splits)
  from assms l obtain b where b: "mpData (contents c) = Block b"
    by (cases "mpData (contents c)") (simp_all add: holds_def)
  show thesis
    by (rule that [of a c b]) (use assms l ac b in \<open>simp_all add: holds_def\<close>)
qed

lemma holdsI:
  assumes "structs h a = Some c"
    and "mSignature (contents c) = xGArr_kSignature"
    and "mnItemSizeBytes (contents c) = E" and "0 < E"
    and "mnNumItems (contents c) = int (length xs)"
    and "mnNext (contents c) = int n" and "n \<le> length xs"
    and "list_all (\<lambda>x. length x = nat E) xs"
    and "mnMaxSizeBytes (contents c) \<le> INT_MAX"
    and "int (length xs) * E \<le> mnMaxSizeBytes (contents c)"
    and "mnMaxSizeBytes (contents c) \<le> mnMaxNumItems (contents c) * E"
    and "mpData (contents c) = Block b"
    and "int (length b) = mnMaxSizeBytes (contents c)"
    and "take (length xs * nat E) b = concat xs"
  shows "holds h (Some a) E xs n"
  using assms by (simp add: holds_def load_def)

lemma holds_fields:
  assumes "holds h this E xs n"
  shows "count h this = int (length xs)" and "cursor h this = int n"
    and "elementSize h this = E" and "0 < E" and "n \<le> length xs"
    and "count h this * E \<le> sizeBytes h this"
    and "sizeBytes h this \<le> capacity h this * E"
    and "\<exists>b. storage_of h this = Block b \<and> int (length b) = sizeBytes h this"
    and "xGArr_Verify h this = Some xGArr_tErr_NoErr"
  using assms
  by (auto elim!: holdsE
      simp: count_def cursor_def elementSize_def sizeBytes_def capacity_def storage_of_def
        load_def xGArr_Verify_def)

lemma holds_full:
  assumes "holds h this E xs n" and "is_full h this"
  shows "count h this = capacity h this" and "sizeBytes h this = capacity h this * E"
proof -
  note f = holds_fields [OF assms(1)]
  have "\<not> count h this < capacity h this"
    using assms(2) by (auto simp: is_full_def count_def capacity_def split: option.splits)
  from full_exact [OF f(4) f(6) f(7) this]
  show "count h this = capacity h this" and "sizeBytes h this = capacity h this * E" .
qed

lemma Add_holds:
  assumes H: "holds h this E xs n" and A: "xGArr_Add m h this x = Some (e, h')"
  shows "(e = xGArr_tErr_AllocationFailed \<and> h' = h \<and> is_full h this)
       \<or> (e = xGArr_tErr_NoErr \<and> nat E \<le> length x
           \<and> holds h' this E (xs @ [take (nat E) x]) n
           \<and> capacity h' this = (if is_full h this then capacity h this * 2 else capacity h this)
           \<and> sizeBytes h' this = (if is_full h this then sizeBytes h this * 2 else sizeBytes h this))"
proof -
  from H obtain a c b where v: "this = Some a" "structs h a = Some c"
      "mSignature (contents c) = xGArr_kSignature"
    and E: "mnItemSizeBytes (contents c) = E" "0 < E"
    and N: "mnNumItems (contents c) = int (length xs)"
    and n: "mnNext (contents c) = int n" "n \<le> length xs"
    and xs: "list_all (\<lambda>x. length x = nat E) xs"
    and sz: "mnMaxSizeBytes (contents c) \<le> INT_MAX"
      "int (length xs) * E \<le> mnMaxSizeBytes (contents c)"
      "mnMaxSizeBytes (contents c) \<le> mnMaxNumItems (contents c) * E"
    and b: "mpData (contents c) = Block b" "int (length b) = mnMaxSizeBytes (contents c)"
      "take (length xs * nat E) b = concat xs"
    by (rule holdsE)
  define s where "s = contents c"
  define full where "full = (\<not> mnNumItems s < mnMaxNumItems s)"
  define T where "T = (\<lambda>h1 s1. case memcpy_to (mpData s1) (wrap_int (mnNumItems s1 * mnItemSizeBytes s1))
                  x (mnItemSizeBytes s1) of
             None \<Rightarrow> None
           | Some d \<Rightarrow>
               Some (xGArr_tErr_NoErr,
                     store h1 a (put c (s1\<lparr> mpData := d,
                                         mnNumItems := wrap_int (mnNumItems s1 + 1) \<rparr>))))"
  have isf: "is_full h this = full"
    using v by (simp add: is_full_def load_def full_def s_def)
  have cap: "capacity h this = mnMaxNumItems s" and sb: "sizeBytes h this = mnMaxSizeBytes s"
    using v by (simp_all add: capacity_def sizeBytes_def load_def s_def)
  have A1: "(case xGArr_Add_grow m h s of None \<Rightarrow> None | Some (Inl e) \<Rightarrow> Some (e, h)
             | Some (Inr (h1, s1)) \<Rightarrow> T h1 s1) = Some (e, h')" if full
    using A v that unfolding T_def s_def full_def
    by (simp add: xGArr_Add_def xGArr_Verify_def load_def)
  have A2: "T h s = Some (e, h')" if "\<not> full"
    using A v that unfolding T_def s_def full_def
    by (simp add: xGArr_Add_def xGArr_Verify_def load_def)
  have s0: "0 \<le> mnMaxSizeBytes s"
    using b(2) by (simp add: s_def)
  \<comment> \<open>the struct and block the copy works on\<close>
  have pre: "(full \<and> e = xGArr_tErr_AllocationFailed \<and> h' = h)
     \<or> (\<exists>h1 s1 b1. T h1 s1 = Some (e, h') \<and> structs h1 = structs h
          \<and> mpData s1 = Block b1 \<and> take (length b) b1 = b
          \<and> int (length b1) = mnMaxSizeBytes s1
          \<and> mnMaxSizeBytes s1 \<le> INT_MAX
          \<and> mnMaxSizeBytes s1 \<le> mnMaxNumItems s1 * E
          \<and> mnMaxNumItems s1 = (if full then mnMaxNumItems s * 2 else mnMaxNumItems s)
          \<and> mnMaxSizeBytes s1 = (if full then mnMaxSizeBytes s * 2 else mnMaxSizeBytes s)
          \<and> mSignature s1 = xGArr_kSignature \<and> mnItemSizeBytes s1 = E
          \<and> mnNumItems s1 = int (length xs) \<and> mnNext s1 = int n)"
  proof (cases full)
    case False
    have "T h s = Some (e, h') \<and> structs h = structs h
          \<and> mpData s = Block b \<and> take (length b) b = b
          \<and> int (length b) = mnMaxSizeBytes s
          \<and> mnMaxSizeBytes s \<le> INT_MAX
          \<and> mnMaxSizeBytes s \<le> mnMaxNumItems s * E
          \<and> mnMaxNumItems s = (if full then mnMaxNumItems s * 2 else mnMaxNumItems s)
          \<and> mnMaxSizeBytes s = (if full then mnMaxSizeBytes s * 2 else mnMaxSizeBytes s)
          \<and> mSignature s = xGArr_kSignature \<and> mnItemSizeBytes s = E
          \<and> mnNumItems s = int (length xs) \<and> mnNext s = int n"
      using False A2 v E N n sz b by (simp add: s_def)
    then show ?thesis by blast
  next
    case True
    with A1 obtain r where r: "xGArr_Add_grow m h s = Some r"
      by (auto split: option.splits)
    have nn: "0 \<le> mnNumItems s" using N by (simp add: s_def)
    have le: "mnNumItems s * E \<le> mnMaxSizeBytes s"
      using N sz(2) by (simp add: s_def)
    note g = grow_result [OF E(2) E(1) [folded s_def] sz(1) [folded s_def] le sz(3) [folded s_def]
        True [unfolded full_def] nn b(1,2) [folded s_def] r]
    from g(1) show ?thesis
    proof
      assume "r = Inl xGArr_tErr_AllocationFailed"
      with A1 [OF True] r True show ?thesis by simp
    next
      assume "\<exists>b'. r = Inr (h\<lparr> released := b # released h \<rparr>,
                         s\<lparr> mpData := Block (b @ b'),
                             mnMaxSizeBytes := mnMaxSizeBytes s * 2,
                             mnMaxNumItems := mnMaxNumItems s * 2 \<rparr>)
            \<and> length b' = length b \<and> mnMaxSizeBytes s * 2 \<le> INT_MAX"
      then obtain b' where b': "r = Inr (h\<lparr> released := b # released h \<rparr>,
                         s\<lparr> mpData := Block (b @ b'),
                             mnMaxSizeBytes := mnMaxSizeBytes s * 2,
                             mnMaxNumItems := mnMaxNumItems s * 2 \<rparr>)"
            "length b' = length b" "mnMaxSizeBytes s * 2 \<le> INT_MAX"
        by blast
      define s1 where "s1 = s\<lparr> mpData := Block (b @ b'),
                             mnMaxSizeBytes := mnMaxSizeBytes s * 2,
                             mnMaxNumItems := mnMaxNumItems s * 2 \<rparr>"
      have "T (h\<lparr> released := b # released h \<rparr>) s1 = Some (e, h')"
        using A1 [OF True] r b'(1) by (simp add: s1_def)
      moreover have "mpData s1 = Block (b @ b')" "take (length b) (b @ b') = b"
          "int (length (b @ b')) = mnMaxSizeBytes s1" "mnMaxSizeBytes s1 \<le> INT_MAX"
          "mnMaxSizeBytes s1 \<le> mnMaxNumItems s1 * E"
          "mnMaxNumItems s1 = (if full then mnMaxNumItems s * 2 else mnMaxNumItems s)"
          "mnMaxSizeBytes s1 = (if full then mnMaxSizeBytes s * 2 else mnMaxSizeBytes s)"
          "mSignature s1 = xGArr_kSignature" "mnItemSizeBytes s1 = E"
          "mnNumItems s1 = int (length xs)" "mnNext s1 = int n"
        using True b' v E N n sz(3) b(2) by (simp_all add: s1_def s_def)
      moreover have "structs (h\<lparr> released := b # released h \<rparr>) = structs h" by simp
      ultimately show ?thesis by blast
    qed
  qed
  show ?thesis
  proof (rule disjE [OF pre])
    assume "full \<and> e = xGArr_tErr_AllocationFailed \<and> h' = h"
    then show ?thesis by (simp add: isf)
  next
    assume "\<exists>h1 s1 b1. T h1 s1 = Some (e, h') \<and> structs h1 = structs h
          \<and> mpData s1 = Block b1 \<and> take (length b) b1 = b
          \<and> int (length b1) = mnMaxSizeBytes s1
          \<and> mnMaxSizeBytes s1 \<le> INT_MAX
          \<and> mnMaxSizeBytes s1 \<le> mnMaxNumItems s1 * E
          \<and> mnMaxNumItems s1 = (if full then mnMaxNumItems s * 2 else mnMaxNumItems s)
          \<and> mnMaxSizeBytes s1 = (if full then mnMaxSizeBytes s * 2 else mnMaxSizeBytes s)
          \<and> mSignature s1 = xGArr_kSignature \<and> mnItemSizeBytes s1 = E
          \<and> mnNumItems s1 = int (length xs) \<and> mnNext s1 = int n"
    then obtain h1 s1 b1 where go: "T h1 s1 = Some (e, h')" and sh: "structs h1 = structs h"
      and b1: "mpData s1 = Block b1" "take (length b) b1 = b" "int (length b1) = mnMaxSizeBytes s1"
      and sz1: "mnMaxSizeBytes s1 \<le> INT_MAX" "mnMaxSizeBytes s1 \<le> mnMaxNumItems s1 * E"
      and cs: "mnMaxNumItems s1 = (if full then mnMaxNumItems s * 2 else mnMaxNumItems s)"
        "mnMaxSizeBytes s1 = (if full then mnMaxSizeBytes s * 2 else mnMaxSizeBytes s)"
      and f1: "mSignature s1 = xGArr_kSignature" "mnItemSizeBytes s1 = E"
        "mnNumItems s1 = int (length xs)" "mnNext s1 = int n"
      by blast
    from go b1(1) f1 obtain d where
      cp: "memcpy_to (Block b1) (wrap_int (int (length xs) * E)) x E = Some d"
      and e: "e = xGArr_tErr_NoErr"
      and h': "h' = store h1 a (put c (s1\<lparr> mpData := d,
                                         mnNumItems := wrap_int (int (length xs) + 1) \<rparr>))"
      by (auto simp: T_def split: option.splits)
    have lenb: "length xs * nat E \<le> length b"
    proof -
      have "int (length xs * nat E) \<le> int (length b)"
        using sz(2) b(2) E(2) by simp
      then show ?thesis by (rule iffD1 [OF of_nat_le_iff])
    qed
    have "take (length xs * nat E) b1 = take (length xs * nat E) (take (length b) b1)"
      using lenb by (simp add: min_absorb2)
    then have ys: "take (length xs * nat E) b1 = concat xs"
      using b1(2) b(3) by simp
    have fits: "int (length xs) * E \<le> mnMaxSizeBytes s1"
      using sz(2) cs(2) s0 by (simp add: s_def split: if_splits)
    note t = Add_tail [OF E(2) sz1(1) b1(3) fits ys cp]
    from t(1) obtain b2 where b2: "d = Block b2" "length b2 = length b1"
        "take (Suc (length xs) * nat E) b2 = concat xs @ take (nat E) x"
      by blast
    have xs': "list_all (\<lambda>x. length x = nat E) (xs @ [take (nat E) x])"
      using xs t(2) by (simp add: min_absorb2)
    have "holds h' (Some a) E (xs @ [take (nat E) x]) n"
      unfolding h'
      by (rule holdsI [where b = b2 and c = "put c (s1\<lparr> mpData := d,
                                         mnNumItems := wrap_int (int (length xs) + 1) \<rparr>)"])
         (use b2 t f1 sz1 b1(3) E(2) n(2) xs' in \<open>simp_all\<close>)
    moreover have "capacity h' this = (if full then capacity h this * 2 else capacity h this)"
      "sizeBytes h' this = (if full then sizeBytes h this * 2 else sizeBytes h this)"
      using v cs cap sb by (simp_all add: h' capacity_def sizeBytes_def load_def)
    ultimately show ?thesis
      using e t(2) v(1) isf by simp
  qed
qed

lemma concat_slice:
  "list_all (\<lambda>x. length x = e) xs \<Longrightarrow> n < length xs
     \<Longrightarrow> take e (drop (n * e) (concat xs)) = xs ! n"
proof (induction xs arbitrary: n)
  case Nil
  then show ?case by simp
next
  case (Cons x xs)
  show ?case
  proof (cases n)
    case 0
    with Cons.prems show ?thesis by simp
  next
    case (Suc k)
    with Cons.prems have "k < length xs" "list_all (\<lambda>x. length x = e) xs" "length x = e"
      by simp_all
    with Cons.IH [of k] Suc show ?thesis by simp
  qed
qed

lemma block_slice:
  assumes "take (N * e) b = concat xs" and "list_all (\<lambda>x. length x = e) xs"
    and "n < length xs" and "N = length xs"
  shows "take e (drop (n * e) b) = xs ! n"
proof -
  have "Suc n * e \<le> N * e"
    using assms(3,4) by (intro mult_le_mono1) simp
  then have m: "min e (N * e - n * e) = e" by simp
  have "take e (drop (n * e) (take (N * e) b)) = take e (drop (n * e) b)"
    by (simp add: drop_take m)
  then show ?thesis
    using concat_slice [OF assms(2,3)] assms(1) by simp
qed

lemma holds_elements:
  assumes "holds h this E xs n"
  shows "elements h this = xs"
proof -
  from assms obtain a c b where v: "this = Some a" "structs h a = Some c"
    and E: "mnItemSizeBytes (contents c) = E" "0 < E"
    and N: "mnNumItems (contents c) = int (length xs)"
    and xs: "list_all (\<lambda>x. length x = nat E) xs"
    and b: "mpData (contents c) = Block b" "take (length xs * nat E) b = concat xs"
    by (rule holdsE)
  have "map (\<lambda>i. take (nat E) (drop (i * nat E) b)) [0..<length xs] = xs"
    by (rule nth_equalityI) (simp_all add: block_slice [OF b(2) xs _ refl])
  then show ?thesis
    using v E N b(1) by (simp add: elements_def load_def)
qed

lemma NextItem_holds_end:
  assumes "holds h this E xs (length xs)"
  shows "xGArr_NextItem h this d = Some (xGArr_tErr_LastItem, h, d)"
  using assms by (auto elim!: holdsE simp: xGArr_NextItem_def xGArr_Verify_def load_def)

lemma NextItem_holds_step:
  assumes H: "holds h this E xs n" and lt: "n < length xs" and dl: "nat E \<le> length d"
  shows "\<exists>h'. xGArr_NextItem h this d = Some (xGArr_tErr_NoErr, h', xs ! n @ drop (nat E) d)
          \<and> holds h' this E xs (Suc n)
          \<and> capacity h' this = capacity h this \<and> sizeBytes h' this = sizeBytes h this"
proof -
  from H obtain a c b where v: "this = Some a" "structs h a = Some c"
      "mSignature (contents c) = xGArr_kSignature"
    and E: "mnItemSizeBytes (contents c) = E" "0 < E"
    and N: "mnNumItems (contents c) = int (length xs)"
    and n: "mnNext (contents c) = int n" "n \<le> length xs"
    and xs: "list_all (\<lambda>x. length x = nat E) xs"
    and sz: "mnMaxSizeBytes (contents c) \<le> INT_MAX"
      "int (length xs) * E \<le> mnMaxSizeBytes (contents c)"
      "mnMaxSizeBytes (contents c) \<le> mnMaxNumItems (contents c) * E"
    and b: "mpData (contents c) = Block b" "int (length b) = mnMaxSizeBytes (contents c)"
      "take (length xs * nat E) b = concat xs"
    by (rule holdsE)
  have le: "int (Suc n) * E \<le> int (length xs) * E"
    using lt E(2) by (intro mult_right_mono) simp_all
  have "0 \<le> int n * E" using E(2) by simp
  moreover have "int n * E \<le> INT_MAX"
    using le sz(1,2) E(2) by (simp add: algebra_simps)
  ultimately have off: "wrap_int (int n * E) = int n * E"
    by (intro wrap_int_id) (simp_all add: INT_MAX_def)
  have "int (Suc n) \<le> int (Suc n) * E"
    using E(2) by (simp add: mult_le_cancel_left1)
  with le sz(1,2) have "int (Suc n) \<le> INT_MAX" by linarith
  then have inc: "wrap_int (int n + 1) = int (Suc n)"
    by (simp add: wrap_int_id INT_MAX_def)
  have noff: "nat (int n * E) = n * nat E"
    using E(2) by (simp add: nat_mult_distrib)
  have "int (Suc n) * E \<le> int (length b)"
    using le sz(2) b(2) by linarith
  moreover have "int (Suc n * nat E) = int (Suc n) * E"
    using E(2) by (simp add: algebra_simps)
  ultimately have "int (Suc n * nat E) \<le> int (length b)"
    by simp
  then have fit: "n * nat E + nat E \<le> length b"
    by (simp only: of_nat_le_iff) simp
  have cp: "memcpy_from d (Block b) (wrap_int (int n * E)) E
      = Some (xs ! n @ drop (nat E) d)"
    using fit dl E(2) block_slice [OF b(3) xs lt refl]
    by (simp add: memcpy_from_def off noff)
  define h' where "h' = store h a (put c ((contents c)\<lparr> mnNext := int (Suc n) \<rparr>))"
  have "xGArr_NextItem h this d = Some (xGArr_tErr_NoErr, h', xs ! n @ drop (nat E) d)"
    using v E N n lt b(1) cp inc
    by (simp add: xGArr_NextItem_def xGArr_Verify_def load_def h'_def)
  moreover have "holds h' (Some a) E xs (Suc n)"
    unfolding h'_def
    by (rule holdsI [where b = b and c = "put c ((contents c)\<lparr> mnNext := int (Suc n) \<rparr>)"])
       (use v E N lt xs sz b in \<open>simp_all\<close>)
  moreover have "capacity h' this = capacity h this" "sizeBytes h' this = sizeBytes h this"
    using v by (simp_all add: capacity_def sizeBytes_def load_def h'_def)
  ultimately show ?thesis using v(1) by blast
qed

lemma NextItem_holds:
  assumes H: "holds h this E xs n" and A: "xGArr_NextItem h this d = Some (e, h', out)"
  shows "\<exists>n'. holds h' this E xs n' \<and> capacity h' this = capacity h this
           \<and> sizeBytes h' this = sizeBytes h this"
proof (cases "n < length xs")
  case False
  with holds_fields(5) [OF H] have "n = length xs" by simp
  with H A NextItem_holds_end [of h this E xs d] show ?thesis by auto
next
  case True
  from H obtain a c b where v: "this = Some a" "structs h a = Some c"
      "mSignature (contents c) = xGArr_kSignature"
    and E: "mnItemSizeBytes (contents c) = E" "0 < E"
    and N: "mnNumItems (contents c) = int (length xs)"
    and n: "mnNext (contents c) = int n"
    and b: "mpData (contents c) = Block b"
    by (rule holdsE)
  from A v E N n True b have "memcpy_from d (Block b) (wrap_int (int n * E)) E \<noteq> None"
    by (auto simp: xGArr_NextItem_def xGArr_Verify_def load_def Let_def split: option.splits)
  then have "nat E \<le> length d"
    by (auto simp: memcpy_from_def split: if_splits)
  from NextItem_holds_step [OF H True this] A show ?thesis by auto
qed

lemma Reset_holds:
  assumes H: "holds h this E xs n"
  shows "\<exists>h'. xGArr_ResetIterator h this = Some (xGArr_tErr_NoErr, h')
          \<and> holds h' this E xs 0
          \<and> capacity h' this = capacity h this \<and> sizeBytes h' this = sizeBytes h this"
proof -
  from H obtain a c b where v: "this = Some a" "structs h a = Some c"
      "mSignature (contents c) = xGArr_kSignature"
    and E: "mnItemSizeBytes (contents c) = E" "0 < E"
    and N: "mnNumItems (contents c) = int (length xs)"
    and xs: "list_all (\<lambda>x. length x = nat E) xs"
    and sz: "mnMaxSizeBytes (contents c) \<le> INT_MAX"
      "int (length xs) * E \<le> mnMaxSizeBytes (contents c)"
      "mnMaxSizeBytes (contents c) \<le> mnMaxNumItems (contents c) * E"
    and b: "mpData (contents c) = Block b" "int (length b) = mnMaxSizeBytes (contents c)"
      "take (length xs * nat E) b = concat xs"
    by (rule holdsE)
  define h' where "h' = store h a (put c ((contents c)\<lparr> mnNext := 0 \<rparr>))"
  have "xGArr_ResetIterator h this = Some (xGArr_tErr_NoErr, h')"
    using v by (simp add: xGArr_ResetIterator_def xGArr_Verify_def load_def h'_def)
  moreover have "holds h' (Some a) E xs 0"
    unfolding h'_def
    by (rule holdsI [where b = b and c = "put c ((contents c)\<lparr> mnNext := 0 \<rparr>)"])
       (use v E N xs sz b in \<open>simp_all\<close>)
  moreover have "capacity h' this = capacity h this" "sizeBytes h' this = sizeBytes h this"
    using v by (simp_all add: capacity_def sizeBytes_def load_def h'_def)
  ultimately show ?thesis using v(1) by blast
qed

lemma Clear_holds:
  assumes H: "holds h this E xs n" and A: "xGArr_Clear m h this = Some (xGArr_tErr_NoErr, h')"
  shows "holds h' this E [] 0 \<and> capacity h' this = capacity h this
           \<and> sizeBytes h' this = sizeBytes h this"
proof -
  from H obtain a c b where v: "this = Some a" "structs h a = Some c"
      "mSignature (contents c) = xGArr_kSignature"
    and E: "mnItemSizeBytes (contents c) = E" "0 < E"
    and sz: "mnMaxSizeBytes (contents c) \<le> INT_MAX"
      "mnMaxSizeBytes (contents c) \<le> mnMaxNumItems (contents c) * E"
    and b: "mpData (contents c) = Block b" "int (length b) = mnMaxSizeBytes (contents c)"
    by (rule holdsE)
  have s0: "0 \<le> mnMaxSizeBytes (contents c)" using b(2) by linarith
  from A v b(1) obtain g where g: "m = Some g"
    and h': "h' = store (h\<lparr> released := b # released h \<rparr>) a (put c ((contents c)\<lparr>
                 mpData := Block (map g [0..<nat (mnMaxSizeBytes (contents c))]),
                 mnNumItems := 0, mnNext := 0 \<rparr>))"
    by (auto simp: xGArr_Clear_def xGArr_Verify_def load_def malloc_def Let_def
        split: option.splits if_splits)
  have "holds h' (Some a) E [] 0"
    unfolding h'
    by (rule holdsI [where b = "map g [0..<nat (mnMaxSizeBytes (contents c))]"
          and c = "put c ((contents c)\<lparr>
                 mpData := Block (map g [0..<nat (mnMaxSizeBytes (contents c))]),
                 mnNumItems := 0, mnNext := 0 \<rparr>)"])
       (use v E sz s0 in \<open>simp_all\<close>)
  moreover have "capacity h' this = capacity h this" "sizeBytes h' this = sizeBytes h this"
    using v by (simp_all add: capacity_def sizeBytes_def load_def h')
  ultimately show ?thesis using v(1) by simp
qed

lemma New_holds:
  assumes "0 < E" and "0 < C"
    and A: "xGArr_New ma md h0 opList E C = Some (xGArr_tErr_NoErr, h1, v)"
  shows "\<exists>a. v = Some (Some a) \<and> holds h1 (Some a) E [] 0
           \<and> capacity h1 (Some a) = C \<and> sizeBytes h1 (Some a) = wrap_int (C * E)"
proof -
  from A obtain a g where a: "ma = Some a" and g: "md = Some g"
    and w: "0 \<le> wrap_int (C * E)" and v: "v = Some (Some a)"
    and h1: "h1 = store h0 a (Live \<lparr> mSignature = xGArr_kSignature, mnNumItems = 0,
                 mnMaxNumItems = C, mnItemSizeBytes = E, mnMaxSizeBytes = wrap_int (C * E),
                 mnNext = 0, mpData = Block (map g [0..<nat (wrap_int (C * E))]) \<rparr>)"
    by (auto simp: xGArr_New_def malloc_def Let_def split: option.splits if_splits)
  have "0 \<le> C * E" using assms(1,2) by simp
  then have le: "wrap_int (C * E) \<le> C * E" by (rule wrap_int_le_self)
  have "holds h1 (Some a) E [] 0"
    unfolding h1
    by (rule holdsI [where b = "map g [0..<nat (wrap_int (C * E))]"
          and c = "Live \<lparr> mSignature = xGArr_kSignature, mnNumItems = 0,
                 mnMaxNumItems = C, mnItemSizeBytes = E, mnMaxSizeBytes = wrap_int (C * E),
                 mnNext = 0, mpData = Block (map g [0..<nat (wrap_int (C * E))]) \<rparr>"])
       (use assms(1) w le wrap_int_upper [of "C * E"] in \<open>simp_all\<close>)
  then show ?thesis
    using v by (simp add: h1 capacity_def sizeBytes_def load_def)
qed

text \<open>
  Where the byte size is exactly the capacity times the element size, an append given at
  least \<open>E\<close> bytes stays inside the block: it returns, with
  \<open>xGArr_tErr_NoErr\<close> or \<open>xGArr_tErr_AllocationFailed\<close>.
\<close>

lemma malloc_not_Freed: "malloc m n \<noteq> Freed"
  by (simp add: malloc_def split: option.splits)

lemma Add_defined:
  assumes H: "holds h this E xs n" and ex: "sizeBytes h this = capacity h this * E"
    and pos: "1 \<le> capacity h this" and x: "nat E \<le> length x"
  shows "\<exists>e h'. xGArr_Add m h this x = Some (e, h')"
proof -
  from H obtain a c b where v: "this = Some a" "structs h a = Some c"
      "mSignature (contents c) = xGArr_kSignature"
    and E: "mnItemSizeBytes (contents c) = E" "0 < E"
    and N: "mnNumItems (contents c) = int (length xs)"
    and sz: "mnMaxSizeBytes (contents c) \<le> INT_MAX"
      "int (length xs) * E \<le> mnMaxSizeBytes (contents c)"
      "mnMaxSizeBytes (contents c) \<le> mnMaxNumItems (contents c) * E"
    and b: "mpData (contents c) = Block b" "int (length b) = mnMaxSizeBytes (contents c)"
    by (rule holdsE)
  define s where "s = contents c"
  have ex': "mnMaxSizeBytes s = mnMaxNumItems s * E" and pos': "1 \<le> mnMaxNumItems s"
    using ex pos v by (simp_all add: sizeBytes_def capacity_def load_def s_def)
  have s0: "0 \<le> mnMaxSizeBytes s" using b(2) by (simp add: s_def)
  have nl: "nat (mnMaxSizeBytes s) = length b" using b(2) by (simp add: s_def)
  have nn0: "0 \<le> int (length xs) * E" using E(2) by simp
  then have off: "wrap_int (int (length xs) * E) = int (length xs) * E"
    using sz(1,2) by (intro wrap_int_id) (simp_all add: INT_MAX_def)
  have Eb: "nat E \<le> length b"
  proof -
    have "1 * E \<le> mnMaxNumItems s * E"
      using pos' E(2) by (intro mult_right_mono) simp_all
    then have "E \<le> int (length b)" using ex' b(2) by (simp add: s_def)
    then show ?thesis by linarith
  qed
  show ?thesis
  proof (cases "mnNumItems s < mnMaxNumItems s")
    case True
    have "(int (length xs) + 1) * E \<le> mnMaxNumItems s * E"
      using True N E(2) by (intro mult_right_mono) (simp_all add: s_def)
    then have "int (length xs) * E + E \<le> int (length b)"
      using ex' b(2) by (simp add: s_def algebra_simps)
    then have "nat (int (length xs) * E + E) \<le> length b"
      by (simp add: nat_le_iff)
    moreover have "nat (int (length xs) * E) + nat E = nat (int (length xs) * E + E)"
      using nn0 E(2) by (simp add: nat_add_distrib)
    ultimately have "nat (int (length xs) * E) + nat E \<le> length b"
      by simp
    then have "memcpy_to (Block b) (wrap_int (int (length xs) * E)) x E \<noteq> None"
      using x E(2) by (simp add: memcpy_to_def off)
    then show ?thesis
      using True v E N b(1) by (auto simp: xGArr_Add_def xGArr_Verify_def load_def s_def)
  next
    case False
    have eq: "mnNumItems s = mnMaxNumItems s"
      using full_exact(1) [OF E(2), of "mnNumItems s" "mnMaxSizeBytes s" "mnMaxNumItems s"]
        False N sz(2,3) by (simp add: s_def)
    show ?thesis
    proof (cases "malloc m (wrap_int (mnMaxSizeBytes s * 2))")
      case Null
      then show ?thesis
        using False v by (simp add: xGArr_Add_def xGArr_Add_grow_def xGArr_Verify_def load_def s_def)
    next
      case Freed
      then show ?thesis by (simp add: malloc_not_Freed)
    next
      case (Block nb)
      then obtain f where f: "0 \<le> wrap_int (mnMaxSizeBytes s * 2)"
          "nb = map f [0..<nat (wrap_int (mnMaxSizeBytes s * 2))]"
        by (auto simp: malloc_def split: option.splits if_splits)
      note w = wrap_int_double [OF s0 sz(1) [folded s_def] f(1)]
      have len: "length nb = 2 * length b"
        using f(2) w(1) b(2) by (simp add: s_def)
      have cp: "memcpy_block (Block nb) (mpData s) (mnMaxSizeBytes s)
          = Some (Block (b @ drop (length b) nb))"
        using b(1) len s0 nl by (simp add: memcpy_block_def memcpy_to_def s_def)
      have nn: "0 \<le> mnMaxNumItems s" using pos' by simp
      have dv: "c_div (wrap_int (mnMaxSizeBytes s * 2)) (mnItemSizeBytes s)
          = Some (mnMaxNumItems s * 2)"
        using c_div_exact [OF E(2) nn] ex' w(1) E(1) by (simp add: s_def)
      have g: "xGArr_Add_grow m h s
          = Some (Inr (h\<lparr> released := b # released h \<rparr>,
                       s\<lparr> mpData := Block (b @ drop (length b) nb),
                             mnMaxSizeBytes := wrap_int (mnMaxSizeBytes s * 2),
                             mnMaxNumItems := mnMaxNumItems s * 2 \<rparr>))"
        using Block cp dv b(1) by (simp add: xGArr_Add_grow_def s_def)
      have "int (length xs) * E = int (length b)"
        using eq N ex' b(2) by (simp add: s_def)
      then have "nat (int (length xs) * E) = length b" by simp
      then have "memcpy_to (Block (b @ drop (length b) nb)) (wrap_int (int (length xs) * E)) x E
          \<noteq> None"
        using x E(2) Eb len by (simp add: memcpy_to_def off)
      then show ?thesis
        using False v E N g
        by (auto simp: xGArr_Add_def xGArr_Verify_def load_def s_def)
    qed
  qed
qed

subsection \<open>Sequences of calls\<close>

lemma run_append:
  "run h this (cs @ ds) =
     (case run h this cs of
        None \<Rightarrow> None
      | Some (obs, h') \<Rightarrow>
          (case run h' this ds of
             None \<Rightarrow> None
           | Some (obs', h'') \<Rightarrow> Some (obs @ obs', h'')))"
  by (induction cs arbitrary: h) (auto split: option.splits)

lemma run_next_items:
  assumes "holds h this E xs n" and "n + k \<le> length xs" and "nat E \<le> length d"
  shows "\<exists>h'. run h this (replicate k (NextItem d))
             = Some (map (\<lambda>x. (xGArr_tErr_NoErr, x @ drop (nat E) d)) (take k (drop n xs)), h')
          \<and> holds h' this E xs (n + k)"
  using assms
proof (induction k arbitrary: h n)
  case 0
  then show ?case by simp
next
  case (Suc k)
  then have lt: "n < length xs" by simp
  from NextItem_holds_step [OF Suc.prems(1) lt Suc.prems(3)] obtain h1 where
    st: "xGArr_NextItem h this d = Some (xGArr_tErr_NoErr, h1, xs ! n @ drop (nat E) d)"
    and H1: "holds h1 this E xs (Suc n)"
    by blast
  from Suc.IH [OF H1 _ Suc.prems(3)] Suc.prems(2) obtain h' where
    r: "run h1 this (replicate k (NextItem d))
         = Some (map (\<lambda>x. (xGArr_tErr_NoErr, x @ drop (nat E) d)) (take k (drop (Suc n) xs)), h')"
    and H': "holds h' this E xs (Suc n + k)"
    by auto
  have "take (Suc k) (drop n xs) = xs ! n # take k (drop (Suc n) xs)"
    using lt by (simp add: Cons_nth_drop_Suc [symmetric])
  with st r H' show ?case by simp
qed

lemma run_last:
  assumes "holds h this E xs (length xs)"
  shows "run h this [NextItem d] = Some ([(xGArr_tErr_LastItem, d)], h)"
  using NextItem_holds_end [OF assms] by simp

lemma run_appends:
  assumes "holds h this E ys n" and "list_all (\<lambda>x. length x = nat E) xs"
    and "length ms = length xs"
    and "run h this (appends xs ms) = Some (obs, h')"
    and "list_all (\<lambda>ob. fst ob = xGArr_tErr_NoErr) obs"
  shows "holds h' this E (ys @ xs) n"
  using assms
proof (induction xs arbitrary: h ys ms obs)
  case Nil
  then show ?case by (simp add: appends_def)
next
  case (Cons x xs)
  from Cons.prems(3) obtain m ms' where ms: "ms = m # ms'" "length ms' = length xs"
    by (cases ms) simp_all
  from Cons.prems(4) ms obtain e h1 obs' where
    a: "xGArr_Add m h this x = Some (e, h1)"
    and r: "run h1 this (appends xs ms') = Some (obs', h')"
    and o: "obs = (e, []) # obs'"
    by (auto simp: appends_def split: option.splits)
  from Cons.prems(5) o have e: "e = xGArr_tErr_NoErr" and o': "list_all (\<lambda>ob. fst ob = xGArr_tErr_NoErr) obs'"
    by simp_all
  from Cons.prems(2) have x: "length x = nat E" and xs: "list_all (\<lambda>x. length x = nat E) xs"
    by simp_all
  from Add_holds [OF Cons.prems(1) a] e x have "holds h1 this E (ys @ [x]) n"
    by simp
  from Cons.IH [OF this xs ms(2) r o'] show ?case by simp
qed

lemma step_holds:
  assumes H: "holds h this E xs n" and S: "step h this c = Some (e, h', out)"
    and ok: "clears_succeeded [c] [(e, out)]"
  shows "\<exists>xs' n'. holds h' this E xs' n'
           \<and> capacity h' this = capacity h this * (if grows h this c then 2 else 1)
           \<and> sizeBytes h' this = sizeBytes h this * (if grows h this c then 2 else 1)"
proof (cases c)
  case (Add x m)
  with S have a: "xGArr_Add m h this x = Some (e, h')"
    by (auto split: option.splits)
  then have g: "grows h this c = (is_full h this \<and> e = xGArr_tErr_NoErr)"
    by (simp add: Add)
  from Add_holds [OF H a] show ?thesis
  proof
    assume "e = xGArr_tErr_AllocationFailed \<and> h' = h \<and> is_full h this"
    with H g show ?thesis by auto
  next
    assume "e = xGArr_tErr_NoErr \<and> nat E \<le> length x
           \<and> holds h' this E (xs @ [take (nat E) x]) n
           \<and> capacity h' this = (if is_full h this then capacity h this * 2 else capacity h this)
           \<and> sizeBytes h' this = (if is_full h this then sizeBytes h this * 2 else sizeBytes h this)"
    with g show ?thesis by auto
  qed
next
  case ResetIterator
  with S Reset_holds [OF H] show ?thesis by auto
next
  case (NextItem d)
  with S NextItem_holds [OF H, of d e h' out] show ?thesis by auto
next
  case (Clear m)
  with S ok have "xGArr_Clear m h this = Some (xGArr_tErr_NoErr, h')"
    by auto
  from Clear_holds [OF H this] Clear show ?thesis by auto
qed

lemma clears_succeeded_ConsD:
  "clears_succeeded (c # cs) ((e, out) # obs)
     \<Longrightarrow> clears_succeeded [c] [(e, out)] \<and> clears_succeeded cs obs"
  by (cases c) simp_all

lemma run_holds:
  assumes "holds h this E xs n" and "run h this cs = Some (obs, h')"
    and "clears_succeeded cs obs"
  shows "\<exists>xs' n'. holds h' this E xs' n'
           \<and> capacity h' this = capacity h this * 2 ^ growth_events h this cs
           \<and> sizeBytes h' this = sizeBytes h this * 2 ^ growth_events h this cs"
  using assms
proof (induction cs arbitrary: h xs n obs)
  case Nil
  then show ?case by auto
next
  case (Cons c cs)
  from Cons.prems(2) obtain e h1 out obs' where
    s: "step h this c = Some (e, h1, out)"
    and r: "run h1 this cs = Some (obs', h')"
    and o: "obs = (e, out) # obs'"
    by (auto split: option.splits)
  from Cons.prems(3) o have ok1: "clears_succeeded [c] [(e, out)]"
    and ok2: "clears_succeeded cs obs'"
    by (blast dest: clears_succeeded_ConsD)+
  from step_holds [OF Cons.prems(1) s ok1] obtain xs1 n1 where
    H1: "holds h1 this E xs1 n1"
    and c1: "capacity h1 this = capacity h this * (if grows h this c then 2 else 1)"
    and s1: "sizeBytes h1 this = sizeBytes h this * (if grows h this c then 2 else 1)"
    by blast
  from Cons.IH [OF H1 r ok2] obtain xs' n' where
    H': "holds h' this E xs' n'"
    and c': "capacity h' this = capacity h1 this * 2 ^ growth_events h1 this cs"
    and s': "sizeBytes h' this = sizeBytes h1 this * 2 ^ growth_events h1 this cs"
    by blast
  have "capacity h' this = capacity h this * 2 ^ growth_events h this (c # cs)"
    "sizeBytes h' this = sizeBytes h this * 2 ^ growth_events h this (c # cs)"
    using c1 c' s1 s' s by simp_all
  with H' show ?case by blast
qed

lemma holds_exact_invariants:
  assumes H: "holds h this E xs n" and ex: "sizeBytes h this = capacity h this * E"
    and pos: "1 \<le> capacity h this"
  shows "data_model_invariants h this"
proof -
  note f = holds_fields [OF H]
  have "count h this * E \<le> capacity h this * E"
    using f(6) ex by simp
  then have le: "count h this \<le> capacity h this"
    using f(4) by (simp add: mult_le_cancel_right)
  from f(8) obtain b where b: "storage_of h this = Block b" "int (length b) = sizeBytes h this"
    by blast
  show ?thesis
    using le pos b ex f(1,2,3,5) by (simp add: data_model_invariants_def)
qed

text \<open>
  After a construction whose byte size \<open>C * E\<close> fits an \<open>int\<close>, no sequence of appends
  of \<open>E\<close>-byte elements leaves the allocated blocks, whatever the allocator answers.
\<close>

lemma appends_defined:
  assumes "0 < E" and "0 < C" and "C * E \<le> INT_MAX"
    and "xGArr_New ma md h0 opList E C = Some (xGArr_tErr_NoErr, h1, Some this)"
    and "list_all (\<lambda>x. length x = nat E) xs"
  shows "\<exists>obs h2. run h1 this (appends xs ms) = Some (obs, h2)"
proof -
  from New_holds [OF assms(1,2,4)] have H1: "holds h1 this E [] 0"
    and c1: "capacity h1 this = C" and s1: "sizeBytes h1 this = wrap_int (C * E)"
    by auto
  have "0 \<le> C * E" using assms(1,2) by simp
  with assms(3) have "wrap_int (C * E) = C * E"
    by (intro wrap_int_id) (simp_all add: INT_MAX_def)
  with s1 c1 have ex1: "sizeBytes h1 this = capacity h1 this * E" by simp
  have p1: "1 \<le> capacity h1 this" using c1 assms(2) by simp
  have "\<exists>obs h2. run h this (appends xs ms) = Some (obs, h2)"
    if "holds h this E ys n" "sizeBytes h this = capacity h this * E" "1 \<le> capacity h this"
      "list_all (\<lambda>x. length x = nat E) xs" for h ys n
    using that
  proof (induction xs arbitrary: h ys ms)
    case Nil
    then show ?case by (simp add: appends_def)
  next
    case (Cons x xs)
    show ?case
    proof (cases ms)
      case Nil
      then show ?thesis by (simp add: appends_def)
    next
      case (Cons m ms')
      from Cons.prems(4) have x: "nat E \<le> length x" and xs: "list_all (\<lambda>x. length x = nat E) xs"
        by simp_all
      from Add_defined [OF Cons.prems(1-3) x] obtain e h' where
        a: "xGArr_Add m h this x = Some (e, h')"
        by blast
      have "\<exists>ys'. holds h' this E ys' n \<and> sizeBytes h' this = capacity h' this * E
              \<and> 1 \<le> capacity h' this"
        using Add_holds [OF Cons.prems(1) a] Cons.prems(1-3) by (auto split: if_splits)
      then obtain ys' where "holds h' this E ys' n" "sizeBytes h' this = capacity h' this * E"
          "1 \<le> capacity h' this"
        by blast
      from Cons.IH [OF this xs, of ms'] obtain obs h2 where
        "run h' this (appends xs ms') = Some (obs, h2)"
        by blast
      with a Cons show ?thesis by (simp add: appends_def)
    qed
  qed
  from this [OF H1 ex1 p1 assms(5)] show ?thesis .
qed

text \<open>
  Appends that all returned \<open>xGArr_tErr_NoErr\<close> are stored in order, and a traversal
  started afterwards returns them and then \<open>xGArr_tErr_LastItem\<close>.
\<close>

lemma appends_stored:
  assumes "0 < E" and "0 < C"
    and "xGArr_New ma md h0 opList E C = Some (xGArr_tErr_NoErr, h1, Some this)"
    and "list_all (\<lambda>x. length x = nat E) xs" and "length ms = length xs"
    and "run h1 this (appends xs ms) = Some (obs, h2)"
    and "list_all (\<lambda>ob. fst ob = xGArr_tErr_NoErr) obs"
    and "nat E \<le> length d"
  shows "count h2 this = int (length xs) \<and> elements h2 this = xs
    \<and> (\<exists>h3. run h2 this (ResetIterator # replicate (Suc (length xs)) (NextItem d))
          = Some ((xGArr_tErr_NoErr, [])
                    # map (\<lambda>x. (xGArr_tErr_NoErr, x @ drop (nat E) d)) xs
                    @ [(xGArr_tErr_LastItem, d)], h3))"
proof -
  from New_holds [OF assms(1-3)] have "holds h1 this E [] 0" by auto
  from run_appends [OF this assms(4-7)] have H2: "holds h2 this E xs 0" by simp
  from Reset_holds [OF H2] obtain h2' where
    rs: "xGArr_ResetIterator h2 this = Some (xGArr_tErr_NoErr, h2')"
    and H2': "holds h2' this E xs 0"
    by blast
  from run_next_items [OF H2' _ assms(8), of "length xs"] obtain h3 where
    nx: "run h2' this (replicate (length xs) (NextItem d))
           = Some (map (\<lambda>x. (xGArr_tErr_NoErr, x @ drop (nat E) d)) xs, h3)"
    and H3: "holds h3 this E xs (length xs)"
    by auto
  have "run h2' this (replicate (length xs) (NextItem d) @ [NextItem d])
      = Some (map (\<lambda>x. (xGArr_tErr_NoErr, x @ drop (nat E) d)) xs @ [(xGArr_tErr_LastItem, d)], h3)"
    by (simp add: run_append nx run_last [OF H3] del: run.simps)
  then have "run h2' this (replicate (Suc (length xs)) (NextItem d))
      = Some (map (\<lambda>x. (xGArr_tErr_NoErr, x @ drop (nat E) d)) xs @ [(xGArr_tErr_LastItem, d)], h3)"
    by (simp only: replicate_append_same replicate_Suc)
  with rs have "run h2 this (ResetIterator # replicate (Suc (length xs)) (NextItem d))
          = Some ((xGArr_tErr_NoErr, [])
                    # map (\<lambda>x. (xGArr_tErr_NoErr, x @ drop (nat E) d)) xs
                    @ [(xGArr_tErr_LastItem, d)], h3)"
    by (simp del: replicate_Suc)
  with holds_fields(1) [OF H2] holds_elements [OF H2] show ?thesis by blast
qed

subsection \<open>The worked scenario is what the operations produce\<close>

lemmas scenario_defs = scenario_new_def scenario_full_def scenario_grown_def scenario_deleted_def
  scenario_midway_def scenario_midway_grown_def scenario_cleared_def scenario_clear_failed_def
  empty_memory_def zeros_def item_def

lemma scenario_new_reached:
  "xGArr_New (Some 0) (Some zeros) empty_memory (Some None) 4 2
     = Some (xGArr_tErr_NoErr, scenario_new, Some (Some 0))"
  by (simp add: xGArr_New_def wrap_int_def malloc_def scenario_defs upt_rec)

lemma scenario_full_reached:
  "run scenario_new (Some 0) [Add (item 1) None, Add (item 2) None]
     = Some ([(xGArr_tErr_NoErr, []), (xGArr_tErr_NoErr, [])], scenario_full)"
  by (simp add: xGArr_Add_def xGArr_Verify_def load_def memcpy_to_def wrap_int_def scenario_defs)

lemma scenario_grown_reached:
  "run scenario_full (Some 0) [Add (item 3) (Some zeros)]
     = Some ([(xGArr_tErr_NoErr, [])], scenario_grown)"
  by (simp add: xGArr_Add_def xGArr_Add_grow_def xGArr_Verify_def load_def memcpy_to_def
      memcpy_block_def malloc_def c_div_def INT_MIN_def wrap_int_def scenario_defs upt_rec)

lemma scenario_deleted_reached:
  "xGArr_Delete scenario_full (Some (Some 0)) = Some (xGArr_tErr_NoErr, scenario_deleted, Some None)"
  by (simp add: xGArr_Delete_def xGArr_Verify_def load_def scenario_defs)

lemma scenario_appends:
  "run scenario_new (Some 0) (appends [item 1, item 2, item 3] [None, None, Some zeros])
     = Some ([(xGArr_tErr_NoErr, []), (xGArr_tErr_NoErr, []), (xGArr_tErr_NoErr, [])],
             scenario_grown)"
proof -
  have "run scenario_new (Some 0)
          ([Add (item 1) None, Add (item 2) None] @ [Add (item 3) (Some zeros)])
      = Some ([(xGArr_tErr_NoErr, []), (xGArr_tErr_NoErr, [])] @ [(xGArr_tErr_NoErr, [])],
             scenario_grown)"
    by (simp only: run_append scenario_full_reached scenario_grown_reached
        option.case prod.case)
  then show ?thesis
    by (simp only: appends_def zip.simps list.case list.map prod.case append.simps)
qed

lemma scenario_growth_events:
  "growth_events scenario_new (Some 0) (appends [item 1, item 2, item 3] [None, None, Some zeros])
     = 1"
  by (simp add: appends_def xGArr_Add_def xGArr_Add_grow_def xGArr_Verify_def load_def
      memcpy_to_def memcpy_block_def malloc_def c_div_def INT_MIN_def wrap_int_def is_full_def
      scenario_defs upt_rec)

lemma scenario_full_elements: "elements scenario_full (Some 0) = [item 1, item 2]"
  by (simp add: elements_def load_def scenario_defs upt_rec)

section \<open>The claims\<close>

text \<open>
  Claim C1, as amended. On an instance constructed with element size \<open>E > 0\<close> and
  initial capacity \<open>C > 0\<close> such that \<open>C * E\<close> is no larger than \<open>INT_MAX\<close>, any
  sequence of \<open>N\<close> appends of \<open>E\<close>-byte elements returns, whatever the allocator
  answers; and when each \<open>xGArr_Add\<close> returned \<open>xGArr_tErr_NoErr\<close>, the count is \<open>N\<close>,
  the block holds those elements in order, and \<open>xGArr_ResetIterator\<close> followed by
  \<open>N + 1\<close> calls of \<open>xGArr_NextItem\<close> returns the \<open>N\<close> elements in the order of the
  appends, each byte for byte in the first \<open>E\<close> bytes of the destination buffer, and
  then \<open>xGArr_tErr_LastItem\<close>.
\<close>

theorem appends_then_traversal:
  assumes "0 < E" and "0 < C" and "C * E \<le> INT_MAX"
    and "xGArr_New ma md h0 opList E C = Some (xGArr_tErr_NoErr, h1, Some this)"
    and "list_all (\<lambda>x. length x = nat E) xs" and "length ms = length xs"
    and "nat E \<le> length d"
  shows "\<exists>obs h2. run h1 this (appends xs ms) = Some (obs, h2)
    \<and> (list_all (\<lambda>ob. fst ob = xGArr_tErr_NoErr) obs \<longrightarrow>
         count h2 this = int (length xs) \<and> elements h2 this = xs
         \<and> (\<exists>h3. run h2 this (ResetIterator # replicate (Suc (length xs)) (NextItem d))
               = Some ((xGArr_tErr_NoErr, [])
                         # map (\<lambda>x. (xGArr_tErr_NoErr, x @ drop (nat E) d)) xs
                         @ [(xGArr_tErr_LastItem, d)], h3)))"
proof -
  from appends_defined [OF assms(1-5)] obtain obs h2 where
    r: "run h1 this (appends xs ms) = Some (obs, h2)"
    by blast
  have "list_all (\<lambda>ob. fst ob = xGArr_tErr_NoErr) obs \<longrightarrow>
         count h2 this = int (length xs) \<and> elements h2 this = xs
         \<and> (\<exists>h3. run h2 this (ResetIterator # replicate (Suc (length xs)) (NextItem d))
               = Some ((xGArr_tErr_NoErr, [])
                         # map (\<lambda>x. (xGArr_tErr_NoErr, x @ drop (nat E) d)) xs
                         @ [(xGArr_tErr_LastItem, d)], h3))"
    using appends_stored [OF assms(1,2,4,5,6) r _ assms(7)] by blast
  with r show ?thesis by blast
qed

theorem appends_then_traversal_witness:
  "(4 :: int) * 2 \<le> INT_MAX
   \<and> xGArr_New (Some 0) (Some zeros) empty_memory (Some None) 4 2
     = Some (xGArr_tErr_NoErr, scenario_new, Some (Some 0))
   \<and> run scenario_new (Some 0) (appends [item 1, item 2, item 3] [None, None, Some zeros])
     = Some ([(xGArr_tErr_NoErr, []), (xGArr_tErr_NoErr, []), (xGArr_tErr_NoErr, [])],
             scenario_grown)
   \<and> count scenario_grown (Some 0) = 3
   \<and> elements scenario_grown (Some 0) = [item 1, item 2, item 3]
   \<and> (\<exists>h3. run scenario_grown (Some 0)
              [ResetIterator, NextItem (item 9), NextItem (item 9), NextItem (item 9),
               NextItem (item 9)]
          = Some ([(xGArr_tErr_NoErr, []), (xGArr_tErr_NoErr, item 1),
                   (xGArr_tErr_NoErr, item 2), (xGArr_tErr_NoErr, item 3),
                   (xGArr_tErr_LastItem, item 9)], h3))"
  using appends_then_traversal [of 4 2 "Some 0" "Some zeros" empty_memory "Some None"
      scenario_new "Some 0" "[item 1, item 2, item 3]" "[None, None, Some zeros]" "item 9"]
    scenario_new_reached scenario_appends
  by (simp add: INT_MAX_def item_def numeral_3_eq_3)

text \<open>
  Claim C1 as stated, for every \<open>E > 0\<close> and \<open>C > 0\<close>, fails where \<open>C * E\<close> does not
  fit an \<open>int\<close>. After \<open>xGArr_New (&list, 4, 1073741825)\<close> the block has 4 bytes. The
  first append fills it and returns \<open>xGArr_tErr_NoErr\<close>. The second finds
  \<open>1 < 1073741825\<close>, skips the growth block and copies 4 bytes to offset 4 of the
  4-byte block: it writes outside the allocated memory, so no two appends are stored,
  whatever the allocator answers.
\<close>

theorem appends_overflow_counterexample:
  "(0 :: int) < 4 \<and> (0 :: int) < 1073741825
   \<and> xGArr_New (Some 0) (Some zeros) empty_memory (Some None) 4 1073741825
     = Some (xGArr_tErr_NoErr, scenario_overflow, Some (Some 0))
   \<and> length (item 1) = nat 4 \<and> length (item 2) = nat 4
   \<and> (\<forall>m. xGArr_Add m scenario_overflow (Some 0) (item 1)
          = Some (xGArr_tErr_NoErr, scenario_overflow_one))
   \<and> count scenario_overflow_one (Some 0) = 1
   \<and> capacity scenario_overflow_one (Some 0) = 1073741825
   \<and> storage_of scenario_overflow_one (Some 0) = Block [1, 0, 0, 0]
   \<and> memcpy_to (Block [1, 0, 0, 0]) 4 (item 2) 4 = None
   \<and> (\<forall>m. xGArr_Add m scenario_overflow_one (Some 0) (item 2) = None)
   \<and> (\<forall>m1 m2. run scenario_overflow (Some 0) (appends [item 1, item 2] [m1, m2]) = None)"
  by (simp add: xGArr_New_def xGArr_Add_def xGArr_Verify_def wrap_int_def malloc_def zeros_def
      upt_rec memcpy_to_def appends_def item_def scenario_overflow_def scenario_overflow_one_def
      empty_memory_def store_def count_def capacity_def storage_of_def load_def)

text \<open>
  Claim C2. Growth exactly doubles the capacity. On an instance constructed with
  \<open>E > 0\<close> and \<open>C > 0\<close> and used through any calls (every \<open>xGArr_Clear\<close>
  successful), the capacity is \<open>C * 2 ^ k\<close> after \<open>k\<close> growth events; \<open>xGArr_Add\<close>
  enters the growth block only when the count equals the capacity; and an append that
  grows doubles \<open>mnMaxSizeBytes\<close> and \<open>mnMaxNumItems\<close>, the division
  \<open>mnMaxSizeBytes / mnItemSizeBytes\<close> being exact, while an append that does not grow
  leaves both as they were.
\<close>

theorem growth_doubles:
  assumes "0 < E" and "0 < C"
    and "xGArr_New ma md h0 opList E C = Some (xGArr_tErr_NoErr, h1, Some this)"
    and "run h1 this cs = Some (obs, h2)" and "clears_succeeded cs obs"
  shows "capacity h2 this = C * 2 ^ growth_events h1 this cs
    \<and> (is_full h2 this \<longrightarrow> count h2 this = capacity h2 this)
    \<and> (xGArr_Add m h2 this x = Some (xGArr_tErr_NoErr, h3) \<longrightarrow>
         (if is_full h2 this
          then capacity h3 this = 2 * capacity h2 this
             \<and> sizeBytes h3 this = 2 * sizeBytes h2 this
             \<and> sizeBytes h3 this = capacity h3 this * E
          else capacity h3 this = capacity h2 this
             \<and> sizeBytes h3 this = sizeBytes h2 this))"
proof -
  from New_holds [OF assms(1-3)] have H1: "holds h1 this E [] 0" and c1: "capacity h1 this = C"
    by auto
  from run_holds [OF H1 assms(4,5)] obtain xs n where
    H2: "holds h2 this E xs n"
    and c2: "capacity h2 this = capacity h1 this * 2 ^ growth_events h1 this cs"
    by blast
  have a: "capacity h2 this = C * 2 ^ growth_events h1 this cs"
    using c1 c2 by simp
  have b: "is_full h2 this \<longrightarrow> count h2 this = capacity h2 this"
    using holds_full(1) [OF H2] by blast
  have c: "if is_full h2 this
          then capacity h3 this = 2 * capacity h2 this
             \<and> sizeBytes h3 this = 2 * sizeBytes h2 this
             \<and> sizeBytes h3 this = capacity h3 this * E
          else capacity h3 this = capacity h2 this
             \<and> sizeBytes h3 this = sizeBytes h2 this"
    if "xGArr_Add m h2 this x = Some (xGArr_tErr_NoErr, h3)"
    using Add_holds [OF H2 that] holds_full(2) [OF H2] by auto
  from a b c show ?thesis by blast
qed

theorem growth_doubles_witness:
  "xGArr_New (Some 0) (Some zeros) empty_memory (Some None) 4 2
     = Some (xGArr_tErr_NoErr, scenario_new, Some (Some 0))
   \<and> run scenario_new (Some 0) (appends [item 1, item 2, item 3] [None, None, Some zeros])
     = Some ([(xGArr_tErr_NoErr, []), (xGArr_tErr_NoErr, []), (xGArr_tErr_NoErr, [])],
             scenario_grown)
   \<and> growth_events scenario_new (Some 0)
        (appends [item 1, item 2, item 3] [None, None, Some zeros]) = 1
   \<and> capacity scenario_grown (Some 0) = 2 * 2 ^ 1
   \<and> is_full scenario_full (Some 0)
   \<and> xGArr_Add (Some zeros) scenario_full (Some 0) (item 3)
        = Some (xGArr_tErr_NoErr, scenario_grown)
   \<and> capacity scenario_grown (Some 0) = 2 * capacity scenario_full (Some 0)
   \<and> sizeBytes scenario_grown (Some 0) = capacity scenario_grown (Some 0) * 4"
proof -
  have ap: "run scenario_new (Some 0) (appends [item 1, item 2] [None, None])
     = Some ([(xGArr_tErr_NoErr, []), (xGArr_tErr_NoErr, [])], scenario_full)"
    using scenario_full_reached by (simp add: appends_def)
  have ad: "xGArr_Add (Some zeros) scenario_full (Some 0) (item 3)
        = Some (xGArr_tErr_NoErr, scenario_grown)"
    using scenario_grown_reached by (auto split: option.splits)
  have fl: "is_full scenario_full (Some 0)"
    by (simp add: is_full_def load_def scenario_full_def)
  note a = growth_doubles [of 4 2 "Some 0" "Some zeros" empty_memory "Some None"
      scenario_new "Some 0" "appends [item 1, item 2, item 3] [None, None, Some zeros]"
      "[(xGArr_tErr_NoErr, []), (xGArr_tErr_NoErr, []), (xGArr_tErr_NoErr, [])]"
      scenario_grown]
  note b = growth_doubles [of 4 2 "Some 0" "Some zeros" empty_memory "Some None"
      scenario_new "Some 0" "appends [item 1, item 2] [None, None]"
      "[(xGArr_tErr_NoErr, []), (xGArr_tErr_NoErr, [])]"
      scenario_full "Some zeros" "item 3" scenario_grown]
  show ?thesis
    using a b scenario_new_reached scenario_appends scenario_growth_events ap ad fl
    by (simp add: appends_def)
qed

text \<open>
  Claim C3. Add is atomic when growth fails: on a valid instance that is full
  (\<open>mnNumItems\<close> equals \<open>mnMaxNumItems\<close>), if the allocation of the doubled block
  returns \<open>NULL\<close>, \<open>xGArr_Add\<close> returns \<open>xGArr_tErr_AllocationFailed\<close> and the whole
  memory (count, capacity, the storage block and every byte in it) is what it was before
  the call.
\<close>

theorem add_growth_failure_atomic:
  assumes "xGArr_Verify h this = Some xGArr_tErr_NoErr"
    and "load h this = Some (a, c)"
    and "mnNumItems (contents c) = mnMaxNumItems (contents c)"
    and "malloc m (wrap_int (mnMaxSizeBytes (contents c) * 2)) = Null"
  shows "xGArr_Add m h this ipSrc = Some (xGArr_tErr_AllocationFailed, h)"
  using assms by (simp add: xGArr_Add_def xGArr_Add_grow_def)

theorem add_growth_failure_atomic_witness:
  "xGArr_Verify scenario_full (Some 0) = Some xGArr_tErr_NoErr
   \<and> count scenario_full (Some 0) = capacity scenario_full (Some 0)
   \<and> malloc None (wrap_int (sizeBytes scenario_full (Some 0) * 2)) = Null
   \<and> xGArr_Add None scenario_full (Some 0) (item 3)
       = Some (xGArr_tErr_AllocationFailed, scenario_full)"
  using add_growth_failure_atomic [of scenario_full "Some 0" 0
      "Live \<lparr> mSignature = xGArr_kSignature, mnNumItems = 2, mnMaxNumItems = 2,
               mnItemSizeBytes = 4, mnMaxSizeBytes = 8, mnNext = 0,
               mpData = Block [1, 0, 0, 0, 2, 0, 0, 0] \<rparr>" None "item 3"]
  by (simp add: xGArr_Verify_def load_def malloc_def count_def capacity_def sizeBytes_def
      scenario_full_def)

text \<open>
  Claim C4, as amended. On an instance constructed with \<open>E > 0\<close>, \<open>C > 0\<close> and
  \<open>C * E\<close> no larger than \<open>INT_MAX\<close>, after any sequence of \<open>xGArr_Add\<close>,
  \<open>xGArr_ResetIterator\<close>, \<open>xGArr_NextItem\<close> and successful \<open>xGArr_Clear\<close> calls the
  invariants of the data model hold: \<open>0 \<le> count \<le> capacity\<close>,
  \<open>0 \<le> cursor \<le> count\<close>, \<open>capacity \<ge> 1\<close>, and the storage block has
  \<open>capacity * elementSize\<close> bytes.
\<close>

theorem invariants_without_overflow:
  assumes "0 < E" and "0 < C" and "C * E \<le> INT_MAX"
    and "xGArr_New ma md h0 opList E C = Some (xGArr_tErr_NoErr, h1, Some this)"
    and "run h1 this cs = Some (obs, h2)" and "clears_succeeded cs obs"
  shows "data_model_invariants h2 this"
proof -
  from New_holds [OF assms(1,2,4)] have H1: "holds h1 this E [] 0"
    and c1: "capacity h1 this = C" and s1: "sizeBytes h1 this = wrap_int (C * E)"
    by auto
  have "0 \<le> C * E" using assms(1,2) by simp
  with assms(3) have "wrap_int (C * E) = C * E"
    by (intro wrap_int_id) (simp_all add: INT_MAX_def)
  with s1 c1 have ex1: "sizeBytes h1 this = capacity h1 this * E" by simp
  from run_holds [OF H1 assms(5,6)] obtain xs n where
    H2: "holds h2 this E xs n"
    and c2: "capacity h2 this = capacity h1 this * 2 ^ growth_events h1 this cs"
    and s2: "sizeBytes h2 this = sizeBytes h1 this * 2 ^ growth_events h1 this cs"
    by blast
  have ex2: "sizeBytes h2 this = capacity h2 this * E"
    using ex1 c2 s2 by simp
  have "1 * 1 \<le> C * 2 ^ growth_events h1 this cs"
    using assms(2) by (intro mult_mono) simp_all
  then have pos: "1 \<le> capacity h2 this"
    using c1 c2 by simp
  from holds_exact_invariants [OF H2 ex2 pos] show ?thesis .
qed

theorem invariants_without_overflow_witness:
  "(2 :: int) * 4 \<le> INT_MAX
   \<and> xGArr_New (Some 0) (Some zeros) empty_memory (Some None) 4 2
     = Some (xGArr_tErr_NoErr, scenario_new, Some (Some 0))
   \<and> run scenario_new (Some 0) (appends [item 1, item 2, item 3] [None, None, Some zeros])
     = Some ([(xGArr_tErr_NoErr, []), (xGArr_tErr_NoErr, []), (xGArr_tErr_NoErr, [])],
             scenario_grown)
   \<and> data_model_invariants scenario_grown (Some 0)"
  using invariants_without_overflow [of 4 2 "Some 0" "Some zeros" empty_memory "Some None"
      scenario_new "Some 0" "appends [item 1, item 2, item 3] [None, None, Some zeros]"
      "[(xGArr_tErr_NoErr, []), (xGArr_tErr_NoErr, []), (xGArr_tErr_NoErr, [])]"
      scenario_grown]
    scenario_new_reached scenario_appends
  by (simp add: INT_MAX_def appends_def)

text \<open>
  Claim C4 as stated, for every \<open>E > 0\<close> and \<open>C > 0\<close>, fails where \<open>C * E\<close> does not
  fit an \<open>int\<close>: \<open>xGArr_New (&list, 4, 1073741825)\<close> succeeds with a block of 4 bytes
  and a capacity of 1073741825 elements of 4 bytes.
\<close>

theorem invariants_overflow_counterexample:
  "(0 :: int) < 4 \<and> (0 :: int) < 1073741825
   \<and> xGArr_New (Some 0) (Some zeros) empty_memory (Some None) 4 1073741825
     = Some (xGArr_tErr_NoErr, scenario_overflow, Some (Some 0))
   \<and> run scenario_overflow (Some 0) [] = Some ([], scenario_overflow)
   \<and> clears_succeeded [] []
   \<and> storage_of scenario_overflow (Some 0) = Block [0, 0, 0, 0]
   \<and> capacity scenario_overflow (Some 0) * elementSize scenario_overflow (Some 0) = 4294967300
   \<and> \<not> data_model_invariants scenario_overflow (Some 0)"
  by (simp add: xGArr_New_def wrap_int_def malloc_def zeros_def upt_rec scenario_overflow_def
      empty_memory_def store_def data_model_invariants_def count_def capacity_def cursor_def elementSize_def
      storage_of_def load_def)

text \<open>
  Claim C5. Every operation other than \<open>xGArr_New\<close> checks the handle first. For a null
  handle (for \<open>xGArr_Delete\<close> also a null pointer to the handle) it returns
  \<open>xGArr_tErr_InvalidObject\<close>; for a handle to a struct whose signature is not
  \<open>xGArr_kSignature\<close> it returns \<open>xGArr_tErr_InvalidSignature\<close>; in both cases the
  memory, the caller's handle variable and the destination buffer are returned as they
  were. A struct that \<open>xGArr_Delete\<close> has destroyed is such a struct: its signature has
  been overwritten.
\<close>

theorem verify_first:
  "xGArr_Delete h None = Some (xGArr_tErr_InvalidObject, h, None)
   \<and> xGArr_Delete h (Some None) = Some (xGArr_tErr_InvalidObject, h, Some None)
   \<and> xGArr_Add m h None ipSrc = Some (xGArr_tErr_InvalidObject, h)
   \<and> xGArr_ResetIterator h None = Some (xGArr_tErr_InvalidObject, h)
   \<and> xGArr_NextItem h None opDest = Some (xGArr_tErr_InvalidObject, h, opDest)
   \<and> xGArr_Clear m h None = Some (xGArr_tErr_InvalidObject, h)
   \<and> (structs h a = Some c \<and> mSignature (contents c) \<noteq> xGArr_kSignature \<longrightarrow>
        xGArr_Delete h (Some (Some a)) = Some (xGArr_tErr_InvalidSignature, h, Some (Some a))
        \<and> xGArr_Add m h (Some a) ipSrc = Some (xGArr_tErr_InvalidSignature, h)
        \<and> xGArr_ResetIterator h (Some a) = Some (xGArr_tErr_InvalidSignature, h)
        \<and> xGArr_NextItem h (Some a) opDest = Some (xGArr_tErr_InvalidSignature, h, opDest)
        \<and> xGArr_Clear m h (Some a) = Some (xGArr_tErr_InvalidSignature, h))
   \<and> (xGArr_Delete h (Some (Some a)) = Some (xGArr_tErr_NoErr, h', v) \<longrightarrow>
        (\<exists>c'. structs h' a = Some c' \<and> mSignature (contents c') \<noteq> xGArr_kSignature))"
proof -
  have del: "xGArr_Delete h (Some (Some a)) = Some (xGArr_tErr_NoErr, h', v) \<Longrightarrow>
        (\<exists>c'. structs h' a = Some c' \<and> mSignature (contents c') \<noteq> xGArr_kSignature)"
    using kSignature_not_trashed by (auto dest!: Delete_NoErr)
  show ?thesis
    using del
    by (simp add: xGArr_Add_def xGArr_ResetIterator_def xGArr_NextItem_def xGArr_Clear_def
        xGArr_Delete_def Verify_bad_signature)
qed

theorem verify_first_witness:
  "structs scenario_deleted 0 = Some (Released \<lparr> mSignature = 1, mnNumItems = 2, mnMaxNumItems = 2,
                    mnItemSizeBytes = 4, mnMaxSizeBytes = 8, mnNext = 0, mpData = Freed \<rparr>)
   \<and> (1 :: int) \<noteq> xGArr_kSignature
   \<and> xGArr_Delete scenario_deleted (Some (Some 0))
       = Some (xGArr_tErr_InvalidSignature, scenario_deleted, Some (Some 0))
   \<and> xGArr_Add (Some zeros) scenario_deleted (Some 0) (item 3)
       = Some (xGArr_tErr_InvalidSignature, scenario_deleted)
   \<and> xGArr_ResetIterator scenario_deleted (Some 0)
       = Some (xGArr_tErr_InvalidSignature, scenario_deleted)
   \<and> xGArr_NextItem scenario_deleted (Some 0) (item 9)
       = Some (xGArr_tErr_InvalidSignature, scenario_deleted, item 9)
   \<and> xGArr_Clear (Some zeros) scenario_deleted (Some 0)
       = Some (xGArr_tErr_InvalidSignature, scenario_deleted)
   \<and> xGArr_Clear (Some zeros) scenario_deleted None
       = Some (xGArr_tErr_InvalidObject, scenario_deleted)"
  using verify_first [of scenario_deleted "Some zeros" "item 3" "item 9" 0
      "Released \<lparr> mSignature = 1, mnNumItems = 2, mnMaxNumItems = 2,
                    mnItemSizeBytes = 4, mnMaxSizeBytes = 8, mnNext = 0, mpData = Freed \<rparr>"
      scenario_deleted "Some None"]
  by (simp add: scenario_deleted_def xGArr_kSignature_def)

text \<open>
  Claim C6. The iterator is a live view. Take any instance constructed with \<open>E > 0\<close> and
  \<open>C > 0\<close> and used in any way (every \<open>xGArr_Clear\<close> successful). After
  \<open>xGArr_ResetIterator\<close> and \<open>j\<close> calls of \<open>xGArr_NextItem\<close>, with \<open>j\<close> at most the
  count (they return the first \<open>j\<close> elements, so \<open>xGArr_tErr_LastItem\<close> has not been
  returned), a successful \<open>xGArr_Add\<close> of \<open>y\<close> puts \<open>y\<close> after the elements held, and
  the traversal in progress sees it: the following calls return the remaining elements
  in insertion order, then \<open>y\<close>, then \<open>xGArr_tErr_LastItem\<close>.
\<close>

theorem iterator_live_view:
  assumes "0 < E" and "0 < C"
    and "xGArr_New ma md h0 opList E C = Some (xGArr_tErr_NoErr, h1, Some this)"
    and "run h1 this cs = Some (obs, h2)" and "clears_succeeded cs obs"
    and "int j \<le> count h2 this" and "nat E \<le> length d"
    and "run h2 this (ResetIterator # replicate j (NextItem d)) = Some (obs', h3)"
    and "xGArr_Add m h3 this y = Some (xGArr_tErr_NoErr, h4)" and "length y = nat E"
  shows "obs' = (xGArr_tErr_NoErr, [])
                  # map (\<lambda>x. (xGArr_tErr_NoErr, x @ drop (nat E) d)) (take j (elements h2 this))
    \<and> elements h4 this = elements h2 this @ [y]
    \<and> (\<exists>h5. run h4 this (replicate (length (elements h2 this) - j + 2) (NextItem d))
          = Some (map (\<lambda>x. (xGArr_tErr_NoErr, x @ drop (nat E) d)) (drop j (elements h2 this))
                    @ [(xGArr_tErr_NoErr, y @ drop (nat E) d), (xGArr_tErr_LastItem, d)], h5))"
proof -
  from New_holds [OF assms(1-3)] have "holds h1 this E [] 0" by auto
  from run_holds [OF this assms(4,5)] obtain xs n where H2: "holds h2 this E xs n"
    by blast
  have el: "elements h2 this = xs" by (rule holds_elements [OF H2])
  have jl: "j \<le> length xs"
    using assms(6) holds_fields(1) [OF H2] by simp
  from Reset_holds [OF H2] obtain h2' where
    rs: "xGArr_ResetIterator h2 this = Some (xGArr_tErr_NoErr, h2')"
    and H2': "holds h2' this E xs 0"
    by blast
  from run_next_items [OF H2' _ assms(7), of j] jl obtain h3' where
    nx: "run h2' this (replicate j (NextItem d))
           = Some (map (\<lambda>x. (xGArr_tErr_NoErr, x @ drop (nat E) d)) (take j xs), h3')"
    and H3': "holds h3' this E xs j"
    by auto
  from assms(8) rs nx have o: "obs' = (xGArr_tErr_NoErr, [])
                  # map (\<lambda>x. (xGArr_tErr_NoErr, x @ drop (nat E) d)) (take j xs)"
    and "h3 = h3'"
    by simp_all
  with H3' have H3: "holds h3 this E xs j" by simp
  from Add_holds [OF H3 assms(9)] assms(10) have H4: "holds h4 this E (xs @ [y]) j"
    by simp
  have el4: "elements h4 this = xs @ [y]" by (rule holds_elements [OF H4])
  define k where "k = length xs - j + 1"
  have kl: "j + k \<le> length (xs @ [y])" and kt: "take k (drop j (xs @ [y])) = drop j xs @ [y]"
    and ke: "j + k = length (xs @ [y])"
    using jl by (simp_all add: k_def)
  from run_next_items [OF H4 kl assms(7)] obtain h5 where
    n5: "run h4 this (replicate k (NextItem d))
           = Some (map (\<lambda>x. (xGArr_tErr_NoErr, x @ drop (nat E) d)) (drop j xs @ [y]), h5)"
    and H5: "holds h5 this E (xs @ [y]) (length (xs @ [y]))"
    unfolding kt ke by blast
  have "run h4 this (replicate k (NextItem d) @ [NextItem d])
      = Some (map (\<lambda>x. (xGArr_tErr_NoErr, x @ drop (nat E) d)) (drop j xs @ [y])
                @ [(xGArr_tErr_LastItem, d)], h5)"
    by (simp add: run_append n5 run_last [OF H5] del: run.simps)
  moreover have "replicate k (NextItem d) @ [NextItem d]
      = replicate (length xs - j + 2) (NextItem d)"
    by (simp add: replicate_append_same k_def)
  ultimately have "run h4 this (replicate (length xs - j + 2) (NextItem d))
          = Some (map (\<lambda>x. (xGArr_tErr_NoErr, x @ drop (nat E) d)) (drop j xs)
                    @ [(xGArr_tErr_NoErr, y @ drop (nat E) d), (xGArr_tErr_LastItem, d)], h5)"
    by simp
  with o el el4 show ?thesis by blast
qed

theorem iterator_live_view_witness:
  "xGArr_New (Some 0) (Some zeros) empty_memory (Some None) 4 2
     = Some (xGArr_tErr_NoErr, scenario_new, Some (Some 0))
   \<and> run scenario_new (Some 0) [Add (item 1) None, Add (item 2) None]
     = Some ([(xGArr_tErr_NoErr, []), (xGArr_tErr_NoErr, [])], scenario_full)
   \<and> elements scenario_full (Some 0) = [item 1, item 2]
   \<and> run scenario_full (Some 0) [ResetIterator, NextItem (item 9)]
     = Some ([(xGArr_tErr_NoErr, []), (xGArr_tErr_NoErr, item 1)], scenario_midway)
   \<and> xGArr_Add (Some zeros) scenario_midway (Some 0) (item 3)
     = Some (xGArr_tErr_NoErr, scenario_midway_grown)
   \<and> (\<exists>h5. run scenario_midway_grown (Some 0)
              [NextItem (item 9), NextItem (item 9), NextItem (item 9)]
          = Some ([(xGArr_tErr_NoErr, item 2), (xGArr_tErr_NoErr, item 3),
                   (xGArr_tErr_LastItem, item 9)], h5))"
proof -
  have tr: "run scenario_full (Some 0) [ResetIterator, NextItem (item 9)]
     = Some ([(xGArr_tErr_NoErr, []), (xGArr_tErr_NoErr, item 1)], scenario_midway)"
    by (simp add: xGArr_ResetIterator_def xGArr_NextItem_def xGArr_Verify_def load_def
        store_def memcpy_from_def wrap_int_def scenario_defs)
  have ad: "xGArr_Add (Some zeros) scenario_midway (Some 0) (item 3)
     = Some (xGArr_tErr_NoErr, scenario_midway_grown)"
    by (simp add: xGArr_Add_def xGArr_Add_grow_def xGArr_Verify_def load_def store_def
        memcpy_to_def memcpy_block_def malloc_def c_div_def INT_MIN_def wrap_int_def
        scenario_defs upt_rec)
  have cn: "count scenario_full (Some 0) = 2"
    by (simp add: count_def load_def scenario_full_def)
  show ?thesis
    using iterator_live_view [of 4 2 "Some 0" "Some zeros" empty_memory "Some None"
      scenario_new "Some 0" "[Add (item 1) None, Add (item 2) None]"
      "[(xGArr_tErr_NoErr, []), (xGArr_tErr_NoErr, [])]" scenario_full 1 "item 9"
      "[(xGArr_tErr_NoErr, []), (xGArr_tErr_NoErr, item 1)]" scenario_midway
      "Some zeros" "item 3" scenario_midway_grown]
      scenario_new_reached scenario_full_reached scenario_full_elements tr ad cn
    by (simp add: item_def numeral_3_eq_3)
qed

text \<open>
  Claim C7. Exhaustion is idempotent and changes nothing: on a valid instance whose cursor
  has reached the count, \<open>xGArr_NextItem\<close> returns \<open>xGArr_tErr_LastItem\<close> and leaves the
  memory and the destination buffer as they were, and so does every one of any number
  \<open>k\<close> of further calls.
\<close>

theorem exhaustion_idempotent:
  assumes "xGArr_Verify h this = Some xGArr_tErr_NoErr"
    and "load h this = Some (a, c)"
    and "mnNumItems (contents c) \<le> mnNext (contents c)"
  shows "xGArr_NextItem h this opDest = Some (xGArr_tErr_LastItem, h, opDest)
    \<and> run h this (replicate k (NextItem opDest))
        = Some (replicate k (xGArr_tErr_LastItem, opDest), h)"
proof
  show one: "xGArr_NextItem h this opDest = Some (xGArr_tErr_LastItem, h, opDest)"
    using assms by (rule NextItem_exhausted)
  show "run h this (replicate k (NextItem opDest))
        = Some (replicate k (xGArr_tErr_LastItem, opDest), h)"
    by (induction k) (simp_all add: one)
qed

theorem exhaustion_idempotent_witness:
  "xGArr_Verify scenario_new (Some 0) = Some xGArr_tErr_NoErr
   \<and> count scenario_new (Some 0) \<le> cursor scenario_new (Some 0)
   \<and> xGArr_NextItem scenario_new (Some 0) (item 9)
       = Some (xGArr_tErr_LastItem, scenario_new, item 9)
   \<and> run scenario_new (Some 0) [NextItem (item 9), NextItem (item 9), NextItem (item 9)]
       = Some ([(xGArr_tErr_LastItem, item 9), (xGArr_tErr_LastItem, item 9),
                (xGArr_tErr_LastItem, item 9)], scenario_new)"
  using exhaustion_idempotent [of scenario_new "Some 0" 0
      "Live \<lparr> mSignature = xGArr_kSignature, mnNumItems = 0, mnMaxNumItems = 2,
                    mnItemSizeBytes = 4, mnMaxSizeBytes = 8, mnNext = 0,
                    mpData = Block [0, 0, 0, 0, 0, 0, 0, 0] \<rparr>" "item 9" 3]
  by (simp add: xGArr_Verify_def load_def count_def cursor_def scenario_new_def
      numeral_3_eq_3)

text \<open>
  Claim C8. A successful \<open>xGArr_Clear\<close> on a valid instance sets count and cursor to 0,
  keeps capacity, element size and byte size, leaves a fresh block of that same byte size
  (not of the size given at construction), and a traversal started afterwards yields no
  element: after \<open>xGArr_ResetIterator\<close> the first \<open>xGArr_NextItem\<close> returns
  \<open>xGArr_tErr_LastItem\<close>.
\<close>

theorem clear_success:
  assumes "xGArr_Verify h this = Some xGArr_tErr_NoErr"
    and "load h this = Some (a, c)"
    and "xGArr_Clear m h this = Some (xGArr_tErr_NoErr, h')"
  shows "count h' this = 0 \<and> cursor h' this = 0
    \<and> capacity h' this = capacity h this
    \<and> elementSize h' this = elementSize h this
    \<and> sizeBytes h' this = sizeBytes h this
    \<and> (\<exists>b. storage_of h' this = Block b \<and> int (length b) = sizeBytes h this)
    \<and> (sizeBytes h this = capacity h this * elementSize h this \<longrightarrow>
         (\<exists>b. storage_of h' this = Block b
            \<and> int (length b) = capacity h' this * elementSize h' this))
    \<and> (\<exists>h''. xGArr_ResetIterator h' this = Some (xGArr_tErr_NoErr, h'')
           \<and> xGArr_NextItem h'' this opDest = Some (xGArr_tErr_LastItem, h'', opDest))"
proof -
  note v = valid_handle [OF assms(1,2)]
  from assms(3) v obtain g h1 where g: "m = Some g" "0 \<le> mnMaxSizeBytes (contents c)"
    and h': "h' = store h1 a (put c ((contents c)\<lparr> mpData := Block (map g [0..<nat (mnMaxSizeBytes (contents c))]),
                   mnNumItems := 0, mnNext := 0 \<rparr>))"
    by (auto simp: xGArr_Clear_def load_def malloc_def Let_def split: option.splits if_splits)
  show ?thesis
    using v g unfolding h'
    by (simp add: count_def cursor_def capacity_def elementSize_def sizeBytes_def storage_of_def
        load_def xGArr_ResetIterator_def xGArr_NextItem_def xGArr_Verify_def Let_def)
qed

theorem clear_success_witness:
  "xGArr_Verify scenario_grown (Some 0) = Some xGArr_tErr_NoErr
   \<and> xGArr_Clear (Some zeros) scenario_grown (Some 0)
       = Some (xGArr_tErr_NoErr, scenario_cleared)
   \<and> capacity scenario_grown (Some 0) = 4
   \<and> capacity scenario_cleared (Some 0) = 4
   \<and> count scenario_cleared (Some 0) = 0"
  using clear_success [of scenario_grown "Some 0" 0
      "Live \<lparr> mSignature = xGArr_kSignature, mnNumItems = 3, mnMaxNumItems = 4,
                    mnItemSizeBytes = 4, mnMaxSizeBytes = 16, mnNext = 0,
                    mpData = Block [1, 0, 0, 0, 2, 0, 0, 0, 3, 0, 0, 0, 0, 0, 0, 0] \<rparr>"
      "Some zeros" scenario_cleared "item 9"]
  by (simp add: xGArr_Verify_def xGArr_Clear_def load_def store_def malloc_def capacity_def
      count_def scenario_grown_def scenario_cleared_def zeros_def upt_rec)

text \<open>
  Claim C9. The failure path of \<open>xGArr_Clear\<close> is destructive. On a valid instance (its
  data pointer is a block or \<open>NULL\<close>), if the fresh allocation returns \<open>NULL\<close>,
  \<open>xGArr_Clear\<close> returns \<open>xGArr_tErr_AllocationFailed\<close>; by then the old block has been
  released (it heads the released blocks of the memory) and \<open>mpData\<close> is \<open>NULL\<close>,
  while count and cursor keep their values. The instance still passes the validity check
  but is unusable: an append into a free slot, or a read of a remaining element, goes
  through the null pointer.
\<close>

theorem clear_failure_destructive:
  assumes "xGArr_Verify h this = Some xGArr_tErr_NoErr"
    and "load h this = Some (a, c)"
    and "mpData (contents c) \<noteq> Freed"
    and "malloc m (mnMaxSizeBytes (contents c)) = Null"
  shows "\<exists>h'. xGArr_Clear m h this = Some (xGArr_tErr_AllocationFailed, h')
    \<and> released h' = (case mpData (contents c) of
                       Block b \<Rightarrow> b # released h
                     | _ \<Rightarrow> released h)
    \<and> storage_of h' this = Null
    \<and> count h' this = count h this \<and> cursor h' this = cursor h this
    \<and> xGArr_Verify h' this = Some xGArr_tErr_NoErr
    \<and> (count h this < capacity h this \<longrightarrow> xGArr_Add m' h' this ipSrc = None)
    \<and> (cursor h this < count h this \<longrightarrow> xGArr_NextItem h' this opDest = None)"
proof -
  note v = valid_handle [OF assms(1,2)]
  from assms(3) obtain h1 d where
    f: "free_data h (mpData (contents c)) = Some (h1, d)"
    and r: "released h1 = (case mpData (contents c) of
                             Block b \<Rightarrow> b # released h
                           | _ \<Rightarrow> released h)"
    by (cases "mpData (contents c)") simp_all
  have s1: "structs h1 = structs h"
    using f by (rule structs_free_data)
  have "xGArr_Clear m h this
      = Some (xGArr_tErr_AllocationFailed, store h1 a (put c ((contents c)\<lparr> mpData := Null \<rparr>)))"
    using assms(1,2,4) f by (simp add: xGArr_Clear_def)
  then show ?thesis
    using v r s1
    by (simp add: count_def cursor_def capacity_def storage_of_def load_def xGArr_Verify_def
        xGArr_Add_def xGArr_NextItem_def memcpy_to_def memcpy_from_def)
qed

theorem clear_failure_destructive_witness:
  "xGArr_Verify scenario_grown (Some 0) = Some xGArr_tErr_NoErr
   \<and> storage_of scenario_grown (Some 0)
       = Block [1, 0, 0, 0, 2, 0, 0, 0, 3, 0, 0, 0, 0, 0, 0, 0]
   \<and> malloc None (sizeBytes scenario_grown (Some 0)) = Null
   \<and> xGArr_Clear None scenario_grown (Some 0)
       = Some (xGArr_tErr_AllocationFailed, scenario_clear_failed)
   \<and> released scenario_clear_failed
       = [1, 0, 0, 0, 2, 0, 0, 0, 3, 0, 0, 0, 0, 0, 0, 0] # released scenario_grown
   \<and> storage_of scenario_clear_failed (Some 0) = Null
   \<and> count scenario_clear_failed (Some 0) = 3
   \<and> xGArr_Add (Some zeros) scenario_clear_failed (Some 0) (item 4) = None"
proof -
  have cl: "xGArr_Clear None scenario_grown (Some 0)
       = Some (xGArr_tErr_AllocationFailed, scenario_clear_failed)"
    by (simp add: xGArr_Clear_def xGArr_Verify_def load_def store_def malloc_def
        scenario_grown_def scenario_clear_failed_def)
  show ?thesis
    using clear_failure_destructive [of scenario_grown "Some 0" 0
      "Live \<lparr> mSignature = xGArr_kSignature, mnNumItems = 3, mnMaxNumItems = 4,
                    mnItemSizeBytes = 4, mnMaxSizeBytes = 16, mnNext = 0,
                    mpData = Block [1, 0, 0, 0, 2, 0, 0, 0, 3, 0, 0, 0, 0, 0, 0, 0] \<rparr>"
      None "Some zeros" "item 4" "item 9"] cl
    by (simp add: xGArr_Verify_def load_def malloc_def sizeBytes_def count_def capacity_def
        storage_of_def scenario_grown_def scenario_clear_failed_def)
qed

text \<open>
  Claim C10. A successful \<open>xGArr_Delete\<close> writes \<open>NULL\<close> into the caller's handle
  variable, besides overwriting the signature. Every later operation through that
  variable therefore returns \<open>xGArr_tErr_InvalidObject\<close> and changes nothing, a second
  \<open>xGArr_Delete\<close> through the same pointer included; a stale copy of the old handle is
  answered with \<open>xGArr_tErr_InvalidSignature\<close>.
\<close>

theorem delete_nulls_handle:
  assumes "xGArr_Delete h (Some this) = Some (xGArr_tErr_NoErr, h', v)"
  shows "v = Some None
    \<and> xGArr_Verify h' None = Some xGArr_tErr_InvalidObject
    \<and> xGArr_Add m h' None ipSrc = Some (xGArr_tErr_InvalidObject, h')
    \<and> xGArr_ResetIterator h' None = Some (xGArr_tErr_InvalidObject, h')
    \<and> xGArr_NextItem h' None opDest = Some (xGArr_tErr_InvalidObject, h', opDest)
    \<and> xGArr_Clear m h' None = Some (xGArr_tErr_InvalidObject, h')
    \<and> xGArr_Delete h' v = Some (xGArr_tErr_InvalidObject, h', v)
    \<and> xGArr_Verify h' this = Some xGArr_tErr_InvalidSignature"
proof -
  from Delete_NoErr [OF assms] obtain a c c' where
    *: "this = Some a" "structs h' a = Some c'" "mSignature (contents c') = 1" "v = Some None"
    by blast
  then show ?thesis
    using kSignature_not_trashed
    by (simp add: xGArr_Add_def xGArr_ResetIterator_def xGArr_NextItem_def xGArr_Clear_def
        xGArr_Delete_def xGArr_Verify_def)
qed

theorem delete_nulls_handle_witness:
  "xGArr_Delete scenario_full (Some (Some 0))
     = Some (xGArr_tErr_NoErr, scenario_deleted, Some None)
   \<and> xGArr_Add (Some zeros) scenario_deleted None (item 3)
       = Some (xGArr_tErr_InvalidObject, scenario_deleted)
   \<and> xGArr_NextItem scenario_deleted None (item 9)
       = Some (xGArr_tErr_InvalidObject, scenario_deleted, item 9)
   \<and> xGArr_Delete scenario_deleted (Some None)
       = Some (xGArr_tErr_InvalidObject, scenario_deleted, Some None)
   \<and> xGArr_Verify scenario_deleted (Some 0) = Some xGArr_tErr_InvalidSignature"
  using delete_nulls_handle [of scenario_full "Some 0" scenario_deleted "Some None"
      "Some zeros" "item 3" "item 9"]
  by (simp add: scenario_deleted_reached)

end
